theory Spec2Isabelle
  imports Complex_Main "HOL-Library.Word" "HOL-Library.AList" "HOL-Library.Log_Nat"
begin

section \<open>Data model\<close>

text \<open>
  The wallet guard keeps four JSON documents and a log in one directory. The model keeps the
  documents in decoded form: a file that \<^verbatim>\<open>JSON.parse\<close> reads is the value it decodes to,
  and \<^verbatim>\<open>JSON.stringify\<close> followed by \<^verbatim>\<open>JSON.parse\<close> is the identity.

  Numbers: money amounts and limits are JavaScript numbers, that is IEEE-754 doubles. The
  model keeps a finite double as the rational it denotes; sums and differences of amounts
  and quotients are the engine's, rounded to the nearest double (\<open>js_add\<close>, \<open>js_sub\<close>,
  \<open>js_div\<close> below), and comparisons are exact, as they are on doubles. \<^verbatim>\<open>NaN\<close> and the
  infinities are left out.
  Durations in seconds and counts are whole numbers, modelled as integers.
  Instants (\<^verbatim>\<open>Date.now()\<close>, and the ISO-8601 strings the source stores and reads back with
  \<^verbatim>\<open>new Date(s).getTime()\<close>) are milliseconds since the epoch. The calendar date
  \<^verbatim>\<open>new Date().toISOString().slice(0, 10)\<close> is the UTC day, modelled by its day number.
  One call reads the clock several times; the model gives every read of one call the same
  instant \<open>now\<close>.
\<close>

type_synonym timestamp = int
type_synonym date = int
type_synonym byte = "8 word"

text \<open>\<^verbatim>\<open>{ platform, id }\<close>; the field \<^verbatim>\<open>id\<close> is named \<open>ident\<close> here.\<close>

record identity =
  platform :: string
  ident :: string

record pending =
  code :: string
  to :: string
  amount :: rat
  token :: string
  sender :: "identity option"
  attempts :: nat
  createdAt :: timestamp
  expiresAt :: timestamp

record state =
  frozen :: bool
  frozenAt :: "timestamp option"
  frozenReason :: "string option"
  dailyTotal :: rat
  dailyDate :: date
  lastTransaction :: "timestamp option"
  pendingConfirmation :: "pending option"
  recentRequests :: "timestamp list"

record limits =
  perTransaction :: rat
  dailyMax :: rat
  highValueThreshold :: rat

record cooldown =
  betweenTransactions :: int
  afterRejection :: int

record confirmation =
  codeExpiry :: int
  codeLength :: nat
  requiredForAllSends :: bool

record freezeOnAnomalies =
  rapidRequests :: int
  windowSeconds :: int

record config =
  version :: nat
  limits :: limits
  cooldown :: cooldown
  confirmation :: confirmation
  freezeOnAnomalies :: freezeOnAnomalies
  authorizedSenders :: "identity list"

definition DEFAULT_CONFIG :: config where
  "DEFAULT_CONFIG =
     \<lparr> version = 1,
       limits = \<lparr> perTransaction = 50, dailyMax = 200, highValueThreshold = 100 \<rparr>,
       cooldown = \<lparr> betweenTransactions = 30, afterRejection = 300 \<rparr>,
       confirmation = \<lparr> codeExpiry = 300, codeLength = 6, requiredForAllSends = True \<rparr>,
       freezeOnAnomalies = \<lparr> rapidRequests = 3, windowSeconds = 60 \<rparr>,
       authorizedSenders = [] \<rparr>"

record allowlist_entry =
  address :: string
  label :: string
  addedAt :: timestamp

record allowlist =
  addresses :: "allowlist_entry list"

text \<open>
  A line of \<^verbatim>\<open>transactions.log\<close> is a JSON object; the model keeps its fields in the order
  the object literal lists them.
\<close>

datatype jvalue = JStr string | JNum rat | JCount nat | JSender identity | JTime timestamp

type_synonym entry = "(string \<times> jvalue) list"

text \<open>The content of a tracked file, as the keyed hash sees it.\<close>

datatype doc = ConfigDoc config | AllowlistDoc allowlist | StateDoc state

text \<open>
  The directory \<^verbatim>\<open>baseDir\<close>. \<open>None\<close> is a file that does not exist. \<open>signatures\<close> is the
  object stored in \<^verbatim>\<open>.signatures\<close>, from file name to hex tag.
\<close>

record disk =
  config_json :: "config option"
  allowlist_json :: "allowlist option"
  state_json :: "state option"
  signatures :: "(string \<times> string) list option"
  transactions_log :: "entry list"

text \<open>What a call reads from its process: the clock and the environment variable.\<close>

record env =
  now :: timestamp
  AWG_INTEGRITY_SECRET :: "string option"

text \<open>
  \<^verbatim>\<open>createHmac('sha256', secret).update(content).digest()\<close> is the library's; the model takes
  it as a parameter, from the secret and the content to the digest bytes.
\<close>

type_synonym hmac = "string \<Rightarrow> doc \<Rightarrow> byte list"

datatype error = IntegrityError string

section \<open>JavaScript numbers\<close>

text \<open>
  A finite double is \<open>m * 2 ^ e\<close> with \<open>\<bar>m\<bar> < 2 ^ 53\<close> and \<open>e \<ge> - 1074\<close>. \<open>round_double x\<close> is
  the double nearest to \<open>x\<close>, ties going to the even significand: the spacing of the doubles
  around \<open>x\<close> is \<open>2 ^ e\<close> with \<open>e = \<lfloor>log\<^sub>2 \<bar>x\<bar>\<rfloor> - 52\<close> (and \<open>- 1074\<close> for the subnormal ones), and
  \<open>x\<close> is rounded to a multiple of it. IEEE-754 addition and subtraction return the rounded
  exact result, which is what \<^verbatim>\<open>a + b\<close> and \<^verbatim>\<open>a - b\<close> compute on numbers, and so does
  IEEE-754 division, \<^verbatim>\<open>a / b\<close> (overflow to infinity, above \<open>2 ^ 1024\<close>, and division by
  zero are left out: the engine divides by 1000 and by 60 only).
\<close>

definition pow2 :: "int \<Rightarrow> rat" where
  "pow2 e = (if 0 \<le> e then 2 ^ nat e else 1 / 2 ^ nat (- e))"

text \<open>For \<open>x > 0\<close>: the \<open>e\<close> with \<open>2 ^ e \<le> x < 2 ^ (e + 1)\<close>, from the bit lengths of \<open>x\<close>'s fraction.\<close>

definition floor_log2 :: "rat \<Rightarrow> int" where
  "floor_log2 x =
     (let e0 = bitlen (fst (quotient_of x)) - bitlen (snd (quotient_of x))
      in if pow2 e0 \<le> x then e0 else e0 - 1)"

definition round_half_even :: "rat \<Rightarrow> int" where
  "round_half_even x =
     (let f = \<lfloor>x\<rfloor>; r = x - of_int f
      in if r < 1 / 2 then f
         else if 1 / 2 < r then f + 1
         else if even f then f else f + 1)"

definition round_double :: "rat \<Rightarrow> rat" where
  "round_double x =
     (if x = 0 then 0
      else (let e = max (floor_log2 \<bar>x\<bar> - 52) (- 1074)
            in of_int (round_half_even (x / pow2 e)) * pow2 e))"

definition js_add :: "rat \<Rightarrow> rat \<Rightarrow> rat" where
  "js_add a b = round_double (a + b)"

definition js_sub :: "rat \<Rightarrow> rat \<Rightarrow> rat" where
  "js_sub a b = round_double (a - b)"

definition js_div :: "rat \<Rightarrow> rat \<Rightarrow> rat" where
  "js_div a b = round_double (a / b)"

section \<open>integrity.mjs\<close>

definition hex_digit :: "nat \<Rightarrow> char" where
  "hex_digit n = ''0123456789abcdef'' ! n"

text \<open>\<^verbatim>\<open>digest('hex')\<close>: two lower-case digits per byte.\<close>

fun hex_encode :: "byte list \<Rightarrow> string" where
  "hex_encode [] = []"
| "hex_encode (b # bs) = hex_digit (unat b div 16) # hex_digit (unat b mod 16) # hex_encode bs"

definition hex_val :: "char \<Rightarrow> nat option" where
  "hex_val c =
     map_of (zip ''0123456789abcdefABCDEF''
                 [0, 1, 2, 3, 4, 5, 6, 7, 8, 9, 10, 11, 12, 13, 14, 15, 10, 11, 12, 13, 14, 15]) c"

text \<open>
  \<^verbatim>\<open>Buffer.from(s, 'hex')\<close>: decodes pairs of hex digits of either case and stops at the
  first pair that is not one (or at a single last character).
\<close>

fun hex_decode :: "string \<Rightarrow> byte list" where
  "hex_decode (a # b # cs) =
     (case hex_val a of
        None \<Rightarrow> []
      | Some h \<Rightarrow>
          (case hex_val b of
             None \<Rightarrow> []
           | Some l \<Rightarrow> word_of_nat (16 * h + l) # hex_decode cs))"
| "hex_decode _ = []"

text \<open>\<^verbatim>\<open>process.env.AWG_INTEGRITY_SECRET || null\<close>: an empty string is falsy.\<close>

definition getSecret :: "env \<Rightarrow> string option" where
  "getSecret e =
     (case AWG_INTEGRITY_SECRET e of
        None \<Rightarrow> None
      | Some s \<Rightarrow> if s = [] then None else Some s)"

text \<open>
  \<^verbatim>\<open>existsSync(filePath)\<close> and \<^verbatim>\<open>readFileSync(filePath)\<close> for the three tracked files; the
  directory holds no other file that is signed or verified.
\<close>

definition read_file :: "disk \<Rightarrow> string \<Rightarrow> doc option" where
  "read_file d filename =
     (if filename = ''config.json'' then map_option ConfigDoc (config_json d)
      else if filename = ''allowlist.json'' then map_option AllowlistDoc (allowlist_json d)
      else if filename = ''state.json'' then map_option StateDoc (state_json d)
      else None)"

definition loadSignatures :: "disk \<Rightarrow> (string \<times> string) list" where
  "loadSignatures d = (case signatures d of None \<Rightarrow> [] | Some sigs \<Rightarrow> sigs)"

definition saveSignatures :: "disk \<Rightarrow> (string \<times> string) list \<Rightarrow> disk" where
  "saveSignatures d sigs = d\<lparr>signatures := Some sigs\<rparr>"

text \<open>\<open>sign\<close> returns the directory after the call and the tag (\<open>None\<close> for \<^verbatim>\<open>null\<close>).\<close>

definition sign :: "hmac \<Rightarrow> env \<Rightarrow> disk \<Rightarrow> string \<Rightarrow> disk \<times> string option" where
  "sign H e d filename =
     (case getSecret e of
        None \<Rightarrow> (d, None)
      | Some secret \<Rightarrow>
          (case read_file d filename of
             None \<Rightarrow> (d, None)
           | Some content \<Rightarrow>
               (let hm = hex_encode (H secret content);
                    sigs = loadSignatures d
                in (saveSignatures d (AList.update filename hm sigs), Some hm))))"

text \<open>
  \<^verbatim>\<open>!sigs[filename]\<close> holds for a missing key and for an empty tag. \<^verbatim>\<open>timingSafeEqual\<close>
  compares two buffers of the same length byte by byte.
\<close>

definition verify :: "hmac \<Rightarrow> env \<Rightarrow> disk \<Rightarrow> string \<Rightarrow> bool" where
  "verify H e d filename =
     (case getSecret e of
        None \<Rightarrow> True
      | Some secret \<Rightarrow>
          (case read_file d filename of
             None \<Rightarrow> True
           | Some content \<Rightarrow>
               (case map_of (loadSignatures d) filename of
                  None \<Rightarrow> False
                | Some tag \<Rightarrow>
                    if tag = [] then False
                    else
                      (let expected = H secret content;
                           stored = hex_decode tag
                       in if length expected \<noteq> length stored then False
                          else expected = stored))))"

section \<open>config.mjs and allowlist.mjs\<close>

text \<open>
  \<^verbatim>\<open>{ ...DEFAULT_CONFIG, ...JSON.parse(raw) }\<close>: the stored document is a whole configuration
  (what \<^verbatim>\<open>saveConfig\<close> writes), so the merge gives the stored one.
\<close>

definition loadConfig :: "hmac \<Rightarrow> env \<Rightarrow> disk \<Rightarrow> error + config" where
  "loadConfig H e d =
     (case config_json d of
        None \<Rightarrow> Inr DEFAULT_CONFIG
      | Some c \<Rightarrow>
          if \<not> verify H e d ''config.json'' then Inl (IntegrityError ''config.json'')
          else Inr c)"

definition loadAllowlist :: "hmac \<Rightarrow> env \<Rightarrow> disk \<Rightarrow> error + allowlist" where
  "loadAllowlist H e d =
     (case allowlist_json d of
        None \<Rightarrow> Inr \<lparr> addresses = [] \<rparr>
      | Some a \<Rightarrow>
          if \<not> verify H e d ''allowlist.json'' then Inl (IntegrityError ''allowlist.json'')
          else Inr a)"

text \<open>\<^verbatim>\<open>toLowerCase()\<close> on the ASCII letters.\<close>

definition lower_char :: "char \<Rightarrow> char" where
  "lower_char c =
     (case map_of (zip ''ABCDEFGHIJKLMNOPQRSTUVWXYZ'' ''abcdefghijklmnopqrstuvwxyz'') c of
        None \<Rightarrow> c
      | Some l \<Rightarrow> l)"

definition toLowerCase :: "string \<Rightarrow> string" where
  "toLowerCase s = map lower_char s"

definition isAllowed :: "hmac \<Rightarrow> env \<Rightarrow> disk \<Rightarrow> string \<Rightarrow> error + bool" where
  "isAllowed H e d addr =
     (case loadAllowlist H e d of
        Inl err \<Rightarrow> Inl err
      | Inr al \<Rightarrow>
          (let normalized = toLowerCase addr
           in Inr (list_ex (\<lambda>a. toLowerCase (address a) = normalized) (addresses al))))"

section \<open>guard.mjs\<close>

definition MAX_CONFIRM_ATTEMPTS :: nat where
  "MAX_CONFIRM_ATTEMPTS = 3"

definition today :: "env \<Rightarrow> date" where
  "today e = now e div 86400000"

text \<open>
  The daily reset that \<^verbatim>\<open>requestSend\<close> and \<^verbatim>\<open>getStatus\<close> both start with:
  \<^verbatim>\<open>if (state.dailyDate !== today) { state.dailyTotal = 0; state.dailyDate = today; }\<close>
\<close>

definition rollover :: "env \<Rightarrow> state \<Rightarrow> state" where
  "rollover e s =
     (if dailyDate s \<noteq> today e then s\<lparr>dailyTotal := 0, dailyDate := today e\<rparr> else s)"

definition loadState :: "hmac \<Rightarrow> env \<Rightarrow> disk \<Rightarrow> error + state" where
  "loadState H e d =
     (case state_json d of
        None \<Rightarrow>
          Inr \<lparr> frozen = False, frozenAt = None, frozenReason = None, dailyTotal = 0,
                dailyDate = today e, lastTransaction = None, pendingConfirmation = None,
                recentRequests = [] \<rparr>
      | Some s \<Rightarrow>
          if \<not> verify H e d ''state.json'' then Inl (IntegrityError ''state.json'')
          else Inr s)"

definition saveState :: "hmac \<Rightarrow> env \<Rightarrow> disk \<Rightarrow> state \<Rightarrow> disk" where
  "saveState H e d s = fst (sign H e (d\<lparr>state_json := Some s\<rparr>) ''state.json'')"

definition logTransaction :: "env \<Rightarrow> disk \<Rightarrow> entry \<Rightarrow> disk" where
  "logTransaction e d ent =
     d\<lparr>transactions_log := transactions_log d @ [ent @ [(''timestamp'', JTime (now e))]]\<rparr>"

text \<open>
  The \<^verbatim>\<open>reason\<close> and \<^verbatim>\<open>message\<close> texts of the source, one constructor per template, with
  the values the template interpolates.
\<close>

datatype reason =
    WalletFrozen
  | UnauthorizedSender
  | NotAllowlisted string
  | OverPerTxLimit rat rat
  | OverDailyLimit rat rat
  | CooldownActive int
  | AutoFrozen
  | NoPending
  | CodeExpired
  | SenderMismatch
  | BruteForceCancelled
  | WrongCode nat

text \<open>
  \<open>Rejected r\<close> is \<^verbatim>\<open>{ approved: false, reason }\<close>; \<open>NeedsConfirmation\<close> is
  \<^verbatim>\<open>{ approved: false, needsConfirmation: true, message }\<close> with the amount, token, address,
  code and minutes of the message; \<open>Approved\<close> is \<^verbatim>\<open>{ approved: true, to, amount, token }\<close>.
\<close>

datatype result =
    Rejected reason
  | NeedsConfirmation rat string string string rat
  | Approved string rat string

fun approved :: "result \<Rightarrow> bool" where
  "approved (Approved t a k) = True"
| "approved (Rejected r) = False"
| "approved (NeedsConfirmation a k t c m) = False"

record status =
  st_frozen :: bool
  st_frozenReason :: "string option"
  st_dailyTotal :: rat
  st_dailyMax :: rat
  st_dailyRemaining :: rat
  st_pendingConfirmation :: bool

text \<open>
  \<open>freeze H e d reason\<close>: \<open>reason\<close> is \<open>None\<close> when the caller leaves it out (the default
  \<^verbatim>\<open>'manual'\<close> applies). The result is \<^verbatim>\<open>{ frozen: true, reason }\<close>.
\<close>

definition freeze ::
  "hmac \<Rightarrow> env \<Rightarrow> disk \<Rightarrow> string option \<Rightarrow> error + (disk \<times> bool \<times> string)" where
  "freeze H e d reason_arg =
     (let why = (case reason_arg of None \<Rightarrow> ''manual'' | Some w \<Rightarrow> w) in
      case loadState H e d of
        Inl err \<Rightarrow> Inl err
      | Inr s \<Rightarrow>
          (let s1 = s\<lparr>frozen := True, frozenAt := Some (now e), frozenReason := Some why\<rparr>;
               d1 = saveState H e d s1;
               d2 = logTransaction e d1 [(''action'', JStr ''freeze''), (''reason'', JStr why)]
           in Inr (d2, True, why)))"

definition unfreeze :: "hmac \<Rightarrow> env \<Rightarrow> disk \<Rightarrow> error + (disk \<times> bool)" where
  "unfreeze H e d =
     (case loadState H e d of
        Inl err \<Rightarrow> Inl err
      | Inr s \<Rightarrow>
          (let s1 = s\<lparr>frozen := False, frozenAt := None, frozenReason := None\<rparr>;
               d1 = saveState H e d s1;
               d2 = logTransaction e d1 [(''action'', JStr ''unfreeze'')]
           in Inr (d2, False)))"

definition getStatus :: "hmac \<Rightarrow> env \<Rightarrow> disk \<Rightarrow> error + (disk \<times> status)" where
  "getStatus H e d =
     (case loadState H e d of
        Inl err \<Rightarrow> Inl err
      | Inr s0 \<Rightarrow>
          (case loadConfig H e d of
             Inl err \<Rightarrow> Inl err
           | Inr cfg \<Rightarrow>
               (let s = rollover e s0;
                    d1 = (if dailyDate s0 \<noteq> today e then saveState H e d s else d)
                in Inr (d1,
                     \<lparr> st_frozen = frozen s,
                       st_frozenReason = frozenReason s,
                       st_dailyTotal = dailyTotal s,
                       st_dailyMax = dailyMax (limits cfg),
                       st_dailyRemaining = js_sub (dailyMax (limits cfg)) (dailyTotal s),
                       st_pendingConfirmation = (pendingConfirmation s \<noteq> None) \<rparr>))))"

text \<open>
  \<^verbatim>\<open>crypto.randomInt(min, max)\<close> is the library's: it returns an integer \<open>n\<close> with
  \<open>min \<le> n < max\<close>, the upper bound excluded. The model computes it from the random
  number \<open>r\<close> the generator drew.
\<close>

definition randomInt :: "int \<Rightarrow> int \<Rightarrow> nat \<Rightarrow> int" where
  "randomInt lo hi r = lo + int r mod (hi - lo)"

text \<open>\<^verbatim>\<open>String(n)\<close> on a whole number: its decimal digits.\<close>

fun String_nat :: "nat \<Rightarrow> string" where
  "String_nat n =
     (if n < 10 then [''0123456789'' ! n]
      else String_nat (n div 10) @ [''0123456789'' ! (n mod 10)])"

declare String_nat.simps [simp del]

definition String_int :: "int \<Rightarrow> string" where
  "String_int i = (if i < 0 then CHR ''-'' # String_nat (nat (- i)) else String_nat (nat i))"

text \<open>\<^verbatim>\<open>s.platform === sender.platform && s.id === sender.id\<close>\<close>

definition same_identity :: "identity \<Rightarrow> identity \<Rightarrow> bool" where
  "same_identity a b = (platform a = platform b \<and> ident a = ident b)"

text \<open>
  The sender check of \<^verbatim>\<open>requestSend\<close>: \<open>Some sd\<close> when the list of authorized senders is not
  empty, a sender \<open>sd\<close> is given and no entry of the list has its platform and id.
\<close>

definition unauthorized_sender :: "config \<Rightarrow> identity option \<Rightarrow> identity option" where
  "unauthorized_sender cfg sender_arg =
     (case sender_arg of
        None \<Rightarrow> None
      | Some sd \<Rightarrow>
          if authorizedSenders cfg \<noteq> [] \<and>
             \<not> list_ex (\<lambda>a. same_identity a sd) (authorizedSenders cfg)
          then Some sd else None)"

text \<open>
  The sender check of \<^verbatim>\<open>confirmSend\<close>: both identities are given and they differ in
  platform or id.
\<close>

definition sender_mismatch :: "identity option \<Rightarrow> identity option \<Rightarrow> bool" where
  "sender_mismatch pending_sender sender_arg =
     (case pending_sender of
        None \<Rightarrow> False
      | Some ps \<Rightarrow>
          (case sender_arg of
             None \<Rightarrow> False
           | Some sd \<Rightarrow> platform ps \<noteq> platform sd \<or> ident ps \<noteq> ident sd))"

text \<open>
  The cooldown test of \<^verbatim>\<open>requestSend\<close>: \<open>Some wait\<close> when the last transaction is less than
  the cooldown ago, with \<^verbatim>\<open>wait = Math.ceil(cooldown - elapsed)\<close>.
\<close>

definition cooldown_wait :: "config \<Rightarrow> state \<Rightarrow> timestamp \<Rightarrow> int option" where
  "cooldown_wait cfg s t =
     (case lastTransaction s of
        None \<Rightarrow> None
      | Some l \<Rightarrow>
          (let elapsed = js_div (of_int (t - l)) 1000
           in if elapsed < of_int (betweenTransactions (cooldown cfg))
              then Some \<lceil>js_sub (of_int (betweenTransactions (cooldown cfg))) elapsed\<rceil>
              else None))"

text \<open>
  \<open>requestSend H e r d to amount token sender\<close>: \<open>token\<close> is \<open>None\<close> when the caller leaves it
  out (the default \<^verbatim>\<open>'USDC'\<close> applies), \<open>sender\<close> is \<open>None\<close> for \<^verbatim>\<open>null\<close>, and \<open>r\<close> is the
  random number drawn for the code.
\<close>

definition requestSend ::
  "hmac \<Rightarrow> env \<Rightarrow> nat \<Rightarrow> disk \<Rightarrow> string \<Rightarrow> rat \<Rightarrow> string option \<Rightarrow> identity option
     \<Rightarrow> error + (disk \<times> result)" where
  "requestSend H e r d to_arg amount_arg token_arg sender_arg =
     (let tok = (case token_arg of None \<Rightarrow> ''USDC'' | Some k \<Rightarrow> k) in
      case loadConfig H e d of
        Inl err \<Rightarrow> Inl err
      | Inr cfg \<Rightarrow>
      (case loadState H e d of
        Inl err \<Rightarrow> Inl err
      | Inr s0 \<Rightarrow>
      (let s = rollover e s0
       in
       if frozen s then
         Inr (logTransaction e d
                [(''action'', JStr ''rejected''), (''reason'', JStr ''wallet_frozen''),
                 (''to'', JStr to_arg), (''amount'', JNum amount_arg), (''token'', JStr tok)],
              Rejected WalletFrozen)
       else
       (case unauthorized_sender cfg sender_arg of
         Some sd \<Rightarrow>
           Inr (logTransaction e d
                  [(''action'', JStr ''rejected''), (''reason'', JStr ''unauthorized_sender''),
                   (''sender'', JSender sd),
                   (''to'', JStr to_arg), (''amount'', JNum amount_arg)],
                Rejected UnauthorizedSender)
       | None \<Rightarrow>
       (case isAllowed H e d to_arg of
         Inl err \<Rightarrow> Inl err
       | Inr allowed \<Rightarrow>
       if \<not> allowed then
         Inr (logTransaction e d
                [(''action'', JStr ''rejected''), (''reason'', JStr ''address_not_allowlisted''),
                 (''to'', JStr to_arg), (''amount'', JNum amount_arg)],
              Rejected (NotAllowlisted to_arg))
       else if amount_arg > perTransaction (limits cfg) then
         Inr (logTransaction e d
                [(''action'', JStr ''rejected''), (''reason'', JStr ''over_per_tx_limit''),
                 (''to'', JStr to_arg), (''amount'', JNum amount_arg)],
              Rejected (OverPerTxLimit amount_arg (perTransaction (limits cfg))))
       else if js_add (dailyTotal s) amount_arg > dailyMax (limits cfg) then
         Inr (logTransaction e d
                [(''action'', JStr ''rejected''), (''reason'', JStr ''over_daily_limit''),
                 (''to'', JStr to_arg), (''amount'', JNum amount_arg)],
              Rejected (OverDailyLimit (dailyTotal s) (dailyMax (limits cfg))))
       else
       (case cooldown_wait cfg s (now e) of
         Some wait \<Rightarrow> Inr (d, Rejected (CooldownActive wait))
       | None \<Rightarrow>
       (let recent =
              filter (\<lambda>ts. js_div (of_int (now e - ts)) 1000
                             < of_int (windowSeconds (freezeOnAnomalies cfg)))
                (recentRequests s) @ [now e];
            s1 = s\<lparr>recentRequests := recent\<rparr>
        in
        if int (length recent) \<ge> rapidRequests (freezeOnAnomalies cfg) then
          (let s2 = s1\<lparr>frozen := True, frozenAt := Some (now e),
                        frozenReason := Some ''anomaly_rapid_requests''\<rparr>;
               d1 = saveState H e d s2
           in Inr (logTransaction e d1
                     [(''action'', JStr ''auto_freeze''), (''reason'', JStr ''rapid_requests''),
                      (''count'', JCount (length recent))],
                   Rejected AutoFrozen))
        else
          (let c = String_int (randomInt 100000 999999 r);
               s2 = s1\<lparr>pendingConfirmation :=
                          Some \<lparr> code = c, to = to_arg, amount = amount_arg, token = tok,
                                 sender = sender_arg, attempts = 0, createdAt = now e,
                                 expiresAt = now e + codeExpiry (confirmation cfg) * 1000 \<rparr>\<rparr>;
               d1 = saveState H e d s2
           in Inr (logTransaction e d1
                     [(''action'', JStr ''confirmation_requested''),
                      (''to'', JStr to_arg), (''amount'', JNum amount_arg), (''token'', JStr tok)],
                   NeedsConfirmation amount_arg tok to_arg c
                     (js_div (of_int (codeExpiry (confirmation cfg))) 60))))))))))"

definition confirmSend ::
  "hmac \<Rightarrow> env \<Rightarrow> disk \<Rightarrow> string \<Rightarrow> identity option \<Rightarrow> error + (disk \<times> result)" where
  "confirmSend H e d code_arg sender_arg =
     (case loadState H e d of
        Inl err \<Rightarrow> Inl err
      | Inr s \<Rightarrow>
      (case pendingConfirmation s of
        None \<Rightarrow> Inr (d, Rejected NoPending)
      | Some p \<Rightarrow>
        if now e > expiresAt p then
          (let d1 = saveState H e d (s\<lparr>pendingConfirmation := None\<rparr>)
           in Inr (logTransaction e d1
                     [(''action'', JStr ''confirmation_expired''),
                      (''to'', JStr (to p)), (''amount'', JNum (amount p))],
                   Rejected CodeExpired))
        else if sender_mismatch (sender p) sender_arg then
          Inr (logTransaction e d
                 [(''action'', JStr ''sender_mismatch''),
                  (''to'', JStr (to p)), (''amount'', JNum (amount p))],
               Rejected SenderMismatch)
        else if code_arg \<noteq> code p then
          (let p1 = p\<lparr>attempts := attempts p + 1\<rparr>
           in
           if attempts p1 \<ge> MAX_CONFIRM_ATTEMPTS then
             (let d1 = saveState H e d (s\<lparr>pendingConfirmation := None\<rparr>)
              in Inr (logTransaction e d1
                        [(''action'', JStr ''brute_force_cancel''),
                         (''to'', JStr (to p1)), (''amount'', JNum (amount p1)),
                         (''attempts'', JCount (attempts p1))],
                      Rejected BruteForceCancelled))
           else
             (let d1 = saveState H e d (s\<lparr>pendingConfirmation := Some p1\<rparr>);
                  remaining = MAX_CONFIRM_ATTEMPTS - attempts p1
              in Inr (logTransaction e d1
                        [(''action'', JStr ''wrong_code''),
                         (''to'', JStr (to p1)), (''amount'', JNum (amount p1))],
                      Rejected (WrongCode remaining))))
        else
          (let s1 = s\<lparr>dailyTotal := js_add (dailyTotal s) (amount p),
                       lastTransaction := Some (now e),
                       pendingConfirmation := None\<rparr>;
               d1 = saveState H e d s1
           in Inr (logTransaction e d1
                     [(''action'', JStr ''approved''),
                      (''to'', JStr (to p)), (''amount'', JNum (amount p)),
                      (''token'', JStr (token p))],
                   Approved (to p) (amount p) (token p)))))"

section \<open>Reading the result of a call\<close>

text \<open>
  A call that throws has written nothing when it throws (every \<^verbatim>\<open>throw\<close> of the source comes
  before the first write of its call), so the directory after it is the one before.
\<close>

fun disk_after :: "disk \<Rightarrow> error + (disk \<times> 'a) \<Rightarrow> disk" where
  "disk_after d (Inl err) = d"
| "disk_after d (Inr (d', x)) = d'"

fun outcome :: "error + (disk \<times> 'a) \<Rightarrow> 'a option" where
  "outcome (Inl err) = None"
| "outcome (Inr (d', x)) = Some x"

section \<open>The request gate, as the specification words it\<close>

text \<open>
  The specification lists the checks of \<^verbatim>\<open>requestSend\<close> in order, after the daily reset:
  frozen, sender authorization, allowlist membership, per-transaction limit, daily limit,
  cooldown, anomaly window. \<open>gate_fails\<close> says when each check rejects, in the
  specification's words, and \<open>first_failing_gate\<close> is the first check of the list that does.
\<close>

datatype gate =
    GateFrozen | GateSender | GateAllowlist | GatePerTransaction | GateDailyLimit
  | GateCooldown | GateAnomaly

definition gate_order :: "gate list" where
  "gate_order =
     [GateFrozen, GateSender, GateAllowlist, GatePerTransaction, GateDailyLimit,
      GateCooldown, GateAnomaly]"

fun gate_fails ::
  "config \<Rightarrow> allowlist \<Rightarrow> timestamp \<Rightarrow> state \<Rightarrow> string \<Rightarrow> rat \<Rightarrow> identity option \<Rightarrow> gate \<Rightarrow> bool"
where
  "gate_fails cfg al t s to_arg amt sd GateFrozen = frozen s"
| "gate_fails cfg al t s to_arg amt sd GateSender =
     (authorizedSenders cfg \<noteq> [] \<and>
      (case sd of None \<Rightarrow> False | Some i \<Rightarrow> i \<notin> set (authorizedSenders cfg)))"
| "gate_fails cfg al t s to_arg amt sd GateAllowlist =
     (toLowerCase to_arg \<notin> set (map (\<lambda>a. toLowerCase (address a)) (addresses al)))"
| "gate_fails cfg al t s to_arg amt sd GatePerTransaction = (amt > perTransaction (limits cfg))"
| "gate_fails cfg al t s to_arg amt sd GateDailyLimit =
     (js_add (dailyTotal s) amt > dailyMax (limits cfg))"
| "gate_fails cfg al t s to_arg amt sd GateCooldown =
     (case lastTransaction s of
        None \<Rightarrow> False
      | Some l \<Rightarrow> js_div (of_int (t - l)) 1000 < of_int (betweenTransactions (cooldown cfg)))"
| "gate_fails cfg al t s to_arg amt sd GateAnomaly =
     (int (length (filter (\<lambda>ts. js_div (of_int (t - ts)) 1000
                              < of_int (windowSeconds (freezeOnAnomalies cfg)))
                     (recentRequests s))) + 1
        \<ge> rapidRequests (freezeOnAnomalies cfg))"

definition first_failing_gate ::
  "config \<Rightarrow> allowlist \<Rightarrow> env \<Rightarrow> state \<Rightarrow> string \<Rightarrow> rat \<Rightarrow> identity option \<Rightarrow> gate option" where
  "first_failing_gate cfg al e s0 to_arg amt sd =
     find (gate_fails cfg al (now e) (rollover e s0) to_arg amt sd) gate_order"

fun gate_of :: "result \<Rightarrow> gate option" where
  "gate_of (Rejected WalletFrozen) = Some GateFrozen"
| "gate_of (Rejected UnauthorizedSender) = Some GateSender"
| "gate_of (Rejected (NotAllowlisted t)) = Some GateAllowlist"
| "gate_of (Rejected (OverPerTxLimit a l)) = Some GatePerTransaction"
| "gate_of (Rejected (OverDailyLimit s l)) = Some GateDailyLimit"
| "gate_of (Rejected (CooldownActive w)) = Some GateCooldown"
| "gate_of (Rejected AutoFrozen) = Some GateAnomaly"
| "gate_of r = None"

section \<open>Reading a decimal string\<close>

text \<open>The number a string of decimal digits denotes, the inverse of \<open>String_nat\<close>.\<close>

definition digit_value :: "char \<Rightarrow> nat" where
  "digit_value c =
     (case map_of (zip ''0123456789'' [0, 1, 2, 3, 4, 5, 6, 7, 8, 9]) c of
        None \<Rightarrow> 0
      | Some v \<Rightarrow> v)"

definition parse_nat :: "string \<Rightarrow> nat" where
  "parse_nat s = foldl (\<lambda>n c. 10 * n + digit_value c) 0 s"

section \<open>The five operations\<close>

text \<open>
  One call of the engine, as \<^verbatim>\<open>cli.mjs\<close> dispatches it: \<open>run\<close> gives the directory after the
  call and whether the call returned \<^verbatim>\<open>approved: true\<close>. \<open>stored_dailyTotal\<close> is the
  \<^verbatim>\<open>dailyTotal\<close> that \<^verbatim>\<open>loadState\<close> reads (zero when there is no state file), and
  \<open>date_rolled\<close> says that the stored \<^verbatim>\<open>dailyDate\<close> is not today.
\<close>

datatype op =
    RequestSend nat string rat "string option" "identity option"
  | ConfirmSend string "identity option"
  | Freeze "string option"
  | Unfreeze
  | GetStatus

fun run :: "hmac \<Rightarrow> env \<Rightarrow> disk \<Rightarrow> op \<Rightarrow> disk \<times> bool" where
  "run H e d (RequestSend r t a k sd) =
     (let x = requestSend H e r d t a k sd
      in (disk_after d x, case outcome x of None \<Rightarrow> False | Some res \<Rightarrow> approved res))"
| "run H e d (ConfirmSend c sd) =
     (let x = confirmSend H e d c sd
      in (disk_after d x, case outcome x of None \<Rightarrow> False | Some res \<Rightarrow> approved res))"
| "run H e d (Freeze why) = (disk_after d (freeze H e d why), False)"
| "run H e d Unfreeze = (disk_after d (unfreeze H e d), False)"
| "run H e d GetStatus = (disk_after d (getStatus H e d), False)"

definition stored_dailyTotal :: "disk \<Rightarrow> rat" where
  "stored_dailyTotal d = (case state_json d of None \<Rightarrow> 0 | Some s \<Rightarrow> dailyTotal s)"

definition date_rolled :: "env \<Rightarrow> disk \<Rightarrow> bool" where
  "date_rolled e d = (case state_json d of None \<Rightarrow> False | Some s \<Rightarrow> dailyDate s \<noteq> today e)"

section \<open>The code and the log\<close>

text \<open>
  \<open>str_includes s c\<close> is \<^verbatim>\<open>s.includes(c)\<close>. An entry mentions a code when one of its string
  fields includes it; \<^verbatim>\<open>JSON.stringify\<close> writes the characters of a string field of digits
  and letters unchanged, so the log line then includes the code as well.
\<close>

fun starts_with :: "string \<Rightarrow> string \<Rightarrow> bool" where
  "starts_with s [] = True"
| "starts_with [] (c # cs) = False"
| "starts_with (x # xs) (c # cs) = (x = c \<and> starts_with xs cs)"

fun str_includes :: "string \<Rightarrow> string \<Rightarrow> bool" where
  "str_includes [] c = (c = [])"
| "str_includes (x # xs) c = (starts_with (x # xs) c \<or> str_includes xs c)"

definition entry_mentions :: "entry \<Rightarrow> string \<Rightarrow> bool" where
  "entry_mentions ent c =
     list_ex (\<lambda>kv. case snd kv of JStr x \<Rightarrow> str_includes x c | _ \<Rightarrow> False) ent"

text \<open>
  \<open>erase_code\<close> blanks the code of the pending confirmation and keeps everything else;
  \<open>code_matches\<close> says that the state loads with a pending confirmation whose code is \<open>c\<close>.
\<close>

definition erase_code :: "state \<Rightarrow> state" where
  "erase_code s =
     s\<lparr>pendingConfirmation := map_option (\<lambda>p. p\<lparr>code := []\<rparr>) (pendingConfirmation s)\<rparr>"

definition code_matches :: "hmac \<Rightarrow> env \<Rightarrow> disk \<Rightarrow> string \<Rightarrow> bool" where
  "code_matches H e d c =
     (case loadState H e d of
        Inl err \<Rightarrow> False
      | Inr s \<Rightarrow> (case pendingConfirmation s of None \<Rightarrow> False | Some p \<Rightarrow> c = code p))"

text \<open>
  A run of the engine is a list of calls, each with the environment it is made in
  (the clock and the secret). \<open>run_all\<close> makes the calls one after the other, each on the
  directory the one before left.
\<close>

fun run_all :: "hmac \<Rightarrow> disk \<Rightarrow> (env \<times> op) list \<Rightarrow> disk" where
  "run_all H d [] = d"
| "run_all H d ((e, c) # cs) = run_all H (fst (run H e d c)) cs"

text \<open>
  \<open>without_code\<close> is what a directory holds apart from the code: the configuration, the
  allowlist, the log, the state with the code blanked, the tags of \<^verbatim>\<open>config.json\<close> and
  \<^verbatim>\<open>allowlist.json\<close>, and whether \<^verbatim>\<open>state.json\<close> verifies (its tag is computed from the
  file's content, the code included, so the tag itself is left out).
\<close>

definition without_code ::
  "hmac \<Rightarrow> env \<Rightarrow> disk \<Rightarrow>
     config option \<times> allowlist option \<times> entry list \<times> state option \<times> string option \<times>
     string option \<times> bool" where
  "without_code H e0 d =
     (config_json d, allowlist_json d, transactions_log d,
      map_option erase_code (state_json d),
      map_of (loadSignatures d) ''config.json'',
      map_of (loadSignatures d) ''allowlist.json'',
      verify H e0 d ''state.json'')"

text \<open>
  Two calls are the same apart from the code when they are the same operation with the same
  arguments, except that two calls of \<^verbatim>\<open>requestSend\<close> may draw different random numbers, and
  two calls of \<^verbatim>\<open>confirmSend\<close> may present different codes as long as both match the pending
  code of their directory or neither does. Two runs are the same apart from the code when
  they make such calls step by step, at the same times and under one secret.
\<close>

fun same_call :: "hmac \<Rightarrow> env \<Rightarrow> disk \<Rightarrow> disk \<Rightarrow> op \<Rightarrow> op \<Rightarrow> bool" where
  "same_call H e d d2 (RequestSend r t a k sd) (RequestSend r2 t2 a2 k2 sd2) =
     (t2 = t \<and> a2 = a \<and> k2 = k \<and> sd2 = sd)"
| "same_call H e d d2 (ConfirmSend c sd) (ConfirmSend c2 sd2) =
     (sd2 = sd \<and> code_matches H e d2 c2 = code_matches H e d c)"
| "same_call H e d d2 (Freeze w) (Freeze w2) = (w2 = w)"
| "same_call H e d d2 Unfreeze Unfreeze = True"
| "same_call H e d d2 GetStatus GetStatus = True"
| "same_call H e d d2 c c2 = False"

fun same_trace ::
  "hmac \<Rightarrow> env \<Rightarrow> disk \<Rightarrow> disk \<Rightarrow> (env \<times> op) list \<Rightarrow> (env \<times> op) list \<Rightarrow> bool" where
  "same_trace H e0 d d2 [] [] = True"
| "same_trace H e0 d d2 ((e, c) # cs) ((e2, c2) # cs2) =
     (e2 = e \<and> getSecret e = getSecret e0 \<and> same_call H e d d2 c c2 \<and>
      same_trace H e0 (fst (run H e d c)) (fst (run H e d2 c2)) cs cs2)"
| "same_trace H e0 d d2 cs cs2 = False"

section \<open>Sample values\<close>

text \<open>
  A stand-in for the keyed hash and a few directories, used where a statement is evaluated
  at a concrete input. The instant is 2026-11-02T04:00:00Z, day 20759.
\<close>

definition toy_mac :: hmac where
  "toy_mac k c =
     [if k = ''k1'' then 17 else 34,
      (case c of
         StateDoc s \<Rightarrow> (if frozen s then 1 else 0)
       | ConfigDoc g \<Rightarrow> 2
       | AllowlistDoc a \<Rightarrow> 3)]"

definition env0 :: env where
  "env0 = \<lparr> now = 1793592000000, AWG_INTEGRITY_SECRET = Some ''k1'' \<rparr>"

definition pending0 :: pending where
  "pending0 =
     \<lparr> code = ''483920'', to = ''0xabcd'', amount = 5, token = ''USDC'', sender = None,
       attempts = 0, createdAt = 1793591990000, expiresAt = 1793592290000 \<rparr>"

definition state0 :: state where
  "state0 =
     \<lparr> frozen = False, frozenAt = None, frozenReason = None, dailyTotal = 40,
       dailyDate = 20759, lastTransaction = None, pendingConfirmation = Some pending0,
       recentRequests = [1793591990000] \<rparr>"

definition disk_empty :: disk where
  "disk_empty =
     \<lparr> config_json = None, allowlist_json = None, state_json = None, signatures = None,
       transactions_log = [] \<rparr>"

definition disk0 :: disk where
  "disk0 = saveState toy_mac env0 disk_empty state0"

definition disk_deleted :: disk where
  "disk_deleted = disk0\<lparr>state_json := None\<rparr>"

definition disk_tampered :: disk where
  "disk_tampered = disk0\<lparr>state_json := Some (state0\<lparr>frozen := True\<rparr>)\<rparr>"

definition state_yesterday :: state where
  "state_yesterday = state0\<lparr>dailyDate := 20758\<rparr>"

definition disk_yesterday :: disk where
  "disk_yesterday = saveState toy_mac env0 disk_empty state_yesterday"

definition state_frozen :: state where
  "state_frozen =
     state0\<lparr>frozen := True, frozenAt := Some 1793591995000, frozenReason := Some ''manual''\<rparr>"

definition disk_frozen :: disk where
  "disk_frozen = saveState toy_mac env0 disk_empty state_frozen"

definition allowlist0 :: allowlist where
  "allowlist0 =
     \<lparr> addresses = [\<lparr> address = ''0x123456'', label = ''Test'', addedAt = 1793500000000 \<rparr>] \<rparr>"

definition disk_allow :: disk where
  "disk_allow =
     \<lparr> config_json = None, allowlist_json = Some allowlist0, state_json = None,
       signatures = Some [(''allowlist.json'', ''1103'')], transactions_log = [] \<rparr>"

definition state_recent :: state where
  "state_recent =
     \<lparr> frozen = False, frozenAt = None, frozenReason = None, dailyTotal = 40,
       dailyDate = 20759, lastTransaction = Some 1793591990000, pendingConfirmation = None,
       recentRequests = [] \<rparr>"

definition disk_recent :: disk where
  "disk_recent =
     \<lparr> config_json = None, allowlist_json = Some allowlist0, state_json = Some state_recent,
       signatures = Some [(''allowlist.json'', ''1103''), (''state.json'', ''1100'')],
       transactions_log = [] \<rparr>"

definition sender_a :: identity where
  "sender_a = \<lparr> platform = ''imessage'', ident = ''+1234'' \<rparr>"

definition sender_b :: identity where
  "sender_b = \<lparr> platform = ''imessage'', ident = ''+9999'' \<rparr>"

definition state_from_a :: state where
  "state_from_a = state0\<lparr>pendingConfirmation := Some (pending0\<lparr>sender := Some sender_a\<rparr>)\<rparr>"

definition disk_from_a :: disk where
  "disk_from_a = saveState toy_mac env0 disk_empty state_from_a"

text \<open>
  Two runs from the directory that holds the allowlist only: a request, its confirmation
  with the code it issued, and then \<^verbatim>\<open>freeze\<close>, \<^verbatim>\<open>unfreeze\<close> and \<^verbatim>\<open>getStatus\<close>. The first
  run draws the code \<^verbatim>\<open>123456\<close>, the second the code \<^verbatim>\<open>100007\<close>.
\<close>

definition calls_a :: "(env \<times> op) list" where
  "calls_a =
     [(env0, RequestSend 23456 ''0x123456'' 5 None None), (env0, ConfirmSend ''123456'' None),
      (env0, Freeze None), (env0, Unfreeze), (env0, GetStatus)]"

definition calls_b :: "(env \<times> op) list" where
  "calls_b =
     [(env0, RequestSend 7 ''0x123456'' 5 None None), (env0, ConfirmSend ''100007'' None),
      (env0, Freeze None), (env0, Unfreeze), (env0, GetStatus)]"






section \<open>Basic facts\<close>

text \<open>Rounding to a double: how it is computed, and that a double rounds to itself.\<close>

lemma pow2_powi: "pow2 e = 2 powi e"
  by (simp add: pow2_def power_int_def inverse_eq_divide power_inverse [symmetric] divide_simps)

lemma pow2_pos [simp]: "0 < pow2 e"
  by (simp add: pow2_def)

lemma pow2_nonzero [simp]: "pow2 e \<noteq> 0"
  by (simp add: pow2_def)

lemma abs_pow2 [simp]: "\<bar>pow2 e\<bar> = pow2 e"
  by (simp add: pow2_def)

lemma pow2_add: "pow2 (a + b) = pow2 a * pow2 b"
  by (simp add: pow2_powi power_int_add)

lemma pow2_diff: "pow2 (a - b) = pow2 a / pow2 b"
  by (simp add: pow2_powi power_int_diff)

lemma pow2_mono: "a \<le> b \<Longrightarrow> pow2 a \<le> pow2 b"
  by (simp add: pow2_powi power_int_increasing)

lemma pow2_less_iff: "pow2 a < pow2 b \<longleftrightarrow> a < b"
proof
  assume "pow2 a < pow2 b"
  then show "a < b" using pow2_mono[of b a] by (cases "a < b") auto
next
  assume "a < b"
  then show "pow2 a < pow2 b" by (simp add: pow2_powi power_int_strict_increasing)
qed

lemma pow2_nat: "pow2 (int n) = 2 ^ n"
  by (simp add: pow2_def)


lemma floor_log2_bounds:
  assumes "0 < x"
  shows "pow2 (floor_log2 x) \<le> x" and "x < pow2 (floor_log2 x + 1)"
proof -
  obtain p q where pq: "quotient_of x = (p, q)" by (cases "quotient_of x")
  then have q: "0 < q" and x: "x = of_int p / of_int q"
    by (simp_all add: quotient_of_denom_pos quotient_of_div)
  with assms have p: "0 < p" by (simp add: zero_less_divide_iff)
  let ?bp = "bitlen p" and ?bq = "bitlen q"
  from bitlen_bounds[OF p] have bp: "2 ^ nat (?bp - 1) \<le> p" "p < 2 ^ nat ?bp" by simp_all
  from bitlen_bounds[OF q] have bq: "2 ^ nat (?bq - 1) \<le> q" "q < 2 ^ nat ?bq" by simp_all
  have bp1: "1 \<le> ?bp" using p by (simp add: bitlen_alt_def)
  have bq1: "1 \<le> ?bq" using q by (simp add: bitlen_alt_def)
  have "of_int (2 ^ nat (?bp - 1)) \<le> (of_int p :: rat)" and "(of_int p :: rat) < of_int (2 ^ nat ?bp)"
    using bp by (simp_all only: of_int_le_iff of_int_less_iff)
  then have P: "pow2 (?bp - 1) \<le> of_int p" "of_int p < pow2 ?bp"
    using bp1 by (simp_all add: pow2_def)
  have "of_int (2 ^ nat (?bq - 1)) \<le> (of_int q :: rat)" and "(of_int q :: rat) < of_int (2 ^ nat ?bq)"
    using bq by (simp_all only: of_int_le_iff of_int_less_iff)
  then have Q: "pow2 (?bq - 1) \<le> of_int q" "of_int q < pow2 ?bq"
    using bq1 by (simp_all add: pow2_def)
  have up: "x < pow2 (?bp - ?bq + 1)"
  proof -
    have "x < pow2 ?bp / pow2 (?bq - 1)"
      unfolding x using P(2) Q(1) p q by (intro frac_less) simp_all
    also have "\<dots> = pow2 (?bp - ?bq + 1)" by (simp add: pow2_diff [symmetric] algebra_simps)
    finally show ?thesis .
  qed
  have lo: "pow2 (?bp - ?bq - 1) \<le> x"
  proof -
    have "pow2 (?bp - 1) / pow2 ?bq \<le> x"
      unfolding x using P(1) Q(2) p q by (intro frac_le) simp_all
    moreover have "pow2 (?bp - 1) / pow2 ?bq = pow2 (?bp - ?bq - 1)"
      by (simp add: pow2_diff [symmetric] algebra_simps)
    ultimately show ?thesis by simp
  qed
  show "pow2 (floor_log2 x) \<le> x"
    using lo by (simp add: floor_log2_def pq Let_def)
  show "x < pow2 (floor_log2 x + 1)"
    using up by (auto simp: floor_log2_def pq Let_def not_le)
qed


lemma round_half_even_of_int [simp]: "round_half_even (of_int k) = k"
  by (simp add: round_half_even_def)


lemma round_double_exact:
  assumes "\<bar>m\<bar> < 2 ^ 53" and "- 1074 \<le> e"
  shows "round_double (of_int m * pow2 e) = of_int m * pow2 e"
proof (cases "m = 0")
  case True
  then show ?thesis by (simp add: round_double_def)
next
  case False
  let ?x = "of_int m * pow2 e :: rat"
  let ?l = "floor_log2 \<bar>?x\<bar>"
  let ?E = "max (?l - 52) (- 1074)"
  have x0: "?x \<noteq> 0" using False by simp
  then have pos: "0 < \<bar>?x\<bar>" by simp
  have "\<bar>?x\<bar> = of_int \<bar>m\<bar> * pow2 e" by (simp add: abs_mult)
  also have "\<dots> < 2 ^ 53 * pow2 e"
  proof -
    have "(of_int \<bar>m\<bar> :: rat) < of_int (2 ^ 53)"
      using assms(1) by (simp only: of_int_less_iff)
    then have "(of_int \<bar>m\<bar> :: rat) < 2 ^ 53" by simp
    then show ?thesis by (intro mult_strict_right_mono) simp_all
  qed
  also have "\<dots> = pow2 (53 + e)"
    unfolding pow2_add by (simp add: pow2_def [of 53])
  finally have "pow2 ?l < pow2 (53 + e)" using floor_log2_bounds(1)[OF pos] by simp
  then have "?l < 53 + e" by (simp add: pow2_less_iff)
  with assms(2) have le: "?E \<le> e" by simp
  then have sp: "pow2 e = of_int (2 ^ nat (e - ?E)) * pow2 ?E"
    using pow2_add[of "e - ?E" ?E] by (simp add: pow2_def)
  have "?x / pow2 ?E = of_int (m * 2 ^ nat (e - ?E))"
    by (subst sp) simp
  then have "round_half_even (?x / pow2 ?E) = m * 2 ^ nat (e - ?E)"
    by (simp only: round_half_even_of_int)
  then have "round_double ?x = of_int (m * 2 ^ nat (e - ?E)) * pow2 ?E"
    using x0 by (simp add: round_double_def Let_def)
  also have "\<dots> = ?x" by (subst (2) sp) simp
  finally show ?thesis .
qed

lemma round_double_of_int: "\<bar>m\<bar> < 2 ^ 53 \<Longrightarrow> round_double (of_int m) = of_int m"
  using round_double_exact[of m 0] by (simp add: pow2_def)

lemma js_add_samples: "js_add 0 5 = 5" "js_add 40 5 = 45"
  using round_double_of_int[of 5] round_double_of_int[of 45] by (simp_all add: js_add_def)

lemma js_time_samples: "js_div 10000 1000 = 10" "js_sub 30 10 = 20" "js_div 300 60 = 5"
  using round_double_of_int[of 10] round_double_of_int[of 20] round_double_of_int[of 5]
  by (simp_all add: js_div_def js_sub_def)




lemma hex_val_digit: "n < 16 \<Longrightarrow> hex_val (hex_digit n) = Some n"
proof -
  assume n: "n < 16"
  have "list_all (\<lambda>n. hex_val (hex_digit n) = Some n) [0..<16]"
    by (simp add: upt_conv_Cons hex_val_def hex_digit_def)
  with n show ?thesis by (simp add: list_all_iff)
qed

lemma hex_roundtrip: "hex_decode (hex_encode bs) = bs"
proof (induction bs)
  case Nil
  show ?case by simp
next
  case (Cons b bs)
  have "unat b < 256" using unsigned_less[of b] by simp
  then have h: "unat b div 16 < 16" by simp
  have l: "unat b mod 16 < 16" by simp
  have "(word_of_nat (16 * (unat b div 16) + unat b mod 16) :: byte) = b" by simp
  with Cons h l show ?case by (simp add: hex_val_digit)
qed

lemma hex_encode_nonempty: "bs \<noteq> [] \<Longrightarrow> hex_encode bs \<noteq> []"
  by (cases bs) simp_all

lemma saveState_state [simp]: "state_json (saveState H e d s) = Some s"
  by (simp add: saveState_def sign_def saveSignatures_def Let_def split: option.splits)

lemma saveState_log [simp]: "transactions_log (saveState H e d s) = transactions_log d"
  by (simp add: saveState_def sign_def saveSignatures_def Let_def split: option.splits)

lemma saveState_config [simp]: "config_json (saveState H e d s) = config_json d"
  by (simp add: saveState_def sign_def saveSignatures_def Let_def split: option.splits)

lemma saveState_allowlist [simp]: "allowlist_json (saveState H e d s) = allowlist_json d"
  by (simp add: saveState_def sign_def saveSignatures_def Let_def split: option.splits)

lemma logTransaction_state [simp]: "state_json (logTransaction e d ent) = state_json d"
  by (simp add: logTransaction_def)

lemma logTransaction_log [simp]:
  "transactions_log (logTransaction e d ent) =
     transactions_log d @ [ent @ [(''timestamp'', JTime (now e))]]"
  by (simp add: logTransaction_def)

lemma read_file_logTransaction [simp]: "read_file (logTransaction e d ent) f = read_file d f"
  by (simp add: logTransaction_def read_file_def)

lemma loadSignatures_logTransaction [simp]:
  "loadSignatures (logTransaction e d ent) = loadSignatures d"
  by (simp add: logTransaction_def loadSignatures_def)

lemma verify_logTransaction [simp]:
  "verify H e' (logTransaction e d ent) f = verify H e' d f"
  by (simp add: verify_def split: option.splits)

lemma loadState_logTransaction [simp]:
  "loadState H e' (logTransaction e d ent) = loadState H e' d"
  by (simp add: loadState_def split: option.splits)

text \<open>A state that was saved loads again, as long as the secret is the same.\<close>

lemma verify_saveState:
  assumes "\<And>k c. H k c \<noteq> []" and "getSecret e' = getSecret e"
  shows "verify H e' (saveState H e d s) ''state.json''"
proof (cases "getSecret e")
  case None
  with assms(2) show ?thesis by (simp add: verify_def)
next
  case (Some k)
  have "hex_encode (H k (StateDoc s)) \<noteq> []"
    using assms(1) by (rule hex_encode_nonempty)
  with Some assms(2) show ?thesis
    by (simp add: verify_def saveState_def sign_def saveSignatures_def read_file_def
        loadSignatures_def update_conv' hex_roundtrip Let_def)
qed

lemma loadState_saveState:
  assumes "\<And>k c. H k c \<noteq> []" and "getSecret e' = getSecret e"
  shows "loadState H e' (saveState H e d s) = Inr s"
  using verify_saveState[OF assms] by (simp add: loadState_def)

lemma load0: "loadState toy_mac env0 disk0 = Inr state0"
  unfolding disk0_def by (rule loadState_saveState) (simp_all add: toy_mac_def)

lemma confirmSend_match:
  assumes "loadState H e d = Inr s" and "pendingConfirmation s = Some p"
    and "now e \<le> expiresAt p" and "\<not> sender_mismatch (sender p) sd"
  shows "confirmSend H e d (code p) sd =
     Inr (logTransaction e
            (saveState H e d (s\<lparr>dailyTotal := js_add (dailyTotal s) (amount p),
                                lastTransaction := Some (now e),
                                pendingConfirmation := None\<rparr>))
            [(''action'', JStr ''approved''), (''to'', JStr (to p)),
             (''amount'', JNum (amount p)), (''token'', JStr (token p))],
          Approved (to p) (amount p) (token p))"
  using assms by (simp add: confirmSend_def Let_def)

lemma disk0_eq:
  "disk0 = \<lparr> config_json = None, allowlist_json = None, state_json = Some state0,
             signatures = Some [(''state.json'', ''1100'')], transactions_log = [] \<rparr>"
  by (simp add: disk0_def saveState_def sign_def getSecret_def env0_def read_file_def
      disk_empty_def toy_mac_def state0_def saveSignatures_def loadSignatures_def hex_digit_def
      Let_def)

lemma toy_mac_nonempty: "toy_mac k c \<noteq> []"
  by (simp add: toy_mac_def)

lemma confirmSend_wrong:
  assumes "loadState H e d = Inr s" and "pendingConfirmation s = Some p"
    and "now e \<le> expiresAt p" and "\<not> sender_mismatch (sender p) sd" and "c \<noteq> code p"
  shows "confirmSend H e d c sd =
     (if MAX_CONFIRM_ATTEMPTS \<le> attempts p + 1 then
        Inr (logTransaction e (saveState H e d (s\<lparr>pendingConfirmation := None\<rparr>))
               [(''action'', JStr ''brute_force_cancel''), (''to'', JStr (to p)),
                (''amount'', JNum (amount p)), (''attempts'', JCount (attempts p + 1))],
             Rejected BruteForceCancelled)
      else
        Inr (logTransaction e
               (saveState H e d (s\<lparr>pendingConfirmation := Some (p\<lparr>attempts := attempts p + 1\<rparr>)\<rparr>))
               [(''action'', JStr ''wrong_code''), (''to'', JStr (to p)),
                (''amount'', JNum (amount p))],
             Rejected (WrongCode (MAX_CONFIRM_ATTEMPTS - (attempts p + 1)))))"
  using assms by (simp add: confirmSend_def Let_def)

lemma confirmSend_none:
  assumes "loadState H e d = Inr s" and "pendingConfirmation s = None"
  shows "confirmSend H e d c sd = Inr (d, Rejected NoPending)"
  using assms by (simp add: confirmSend_def)

lemma same_identity_eq: "same_identity a (b :: identity) = (a = b)"
  by (cases a, cases b) (auto simp: same_identity_def)

lemma list_ex_same_identity:
  "list_ex (\<lambda>a. same_identity a sd) xs = (sd \<in> set xs)"
  by (auto simp: list_ex_iff same_identity_eq)

lemma frozen_rollover [simp]: "frozen (rollover e s) = frozen s"
  by (simp add: rollover_def)

lemma lastTransaction_rollover [simp]: "lastTransaction (rollover e s) = lastTransaction s"
  by (simp add: rollover_def)

lemma recentRequests_rollover [simp]: "recentRequests (rollover e s) = recentRequests s"
  by (simp add: rollover_def)

lemma pendingConfirmation_rollover [simp]:
  "pendingConfirmation (rollover e s) = pendingConfirmation s"
  by (simp add: rollover_def)


lemma isAllowed_loaded:
  assumes "loadAllowlist H e d = Inr al"
  shows "isAllowed H e d t =
           Inr (toLowerCase t \<in> set (map (\<lambda>a. toLowerCase (address a)) (addresses al)))"
  using assms by (auto simp: isAllowed_def Let_def list_ex_iff intro: rev_image_eqI)

lemma unauthorized_sender_None:
  "(unauthorized_sender cfg sd = None) =
     (\<not> (authorizedSenders cfg \<noteq> [] \<and>
          (case sd of None \<Rightarrow> False | Some i \<Rightarrow> i \<notin> set (authorizedSenders cfg))))"
  by (simp add: unauthorized_sender_def list_ex_same_identity split: option.splits)

lemma cooldown_wait_None:
  "(cooldown_wait cfg s t = None) =
     (\<not> (case lastTransaction s of
            None \<Rightarrow> False
          | Some l \<Rightarrow> js_div (of_int (t - l)) 1000 < of_int (betweenTransactions (cooldown cfg))))"
  by (simp add: cooldown_wait_def Let_def split: option.splits)

text \<open>The branches of \<^verbatim>\<open>requestSend\<close>, one per exit, under the tests that lead there.\<close>

lemma req_frozen:
  assumes "loadConfig H e d = Inr cfg" and "loadState H e d = Inr s0" and "frozen s0"
  shows "requestSend H e r d t a k sd =
     Inr (logTransaction e d
            [(''action'', JStr ''rejected''), (''reason'', JStr ''wallet_frozen''),
             (''to'', JStr t), (''amount'', JNum a),
             (''token'', JStr (case k of None \<Rightarrow> ''USDC'' | Some x \<Rightarrow> x))],
          Rejected WalletFrozen)"
  using assms by (simp add: requestSend_def Let_def)

lemma req_sender:
  assumes "loadConfig H e d = Inr cfg" and "loadState H e d = Inr s0" and "\<not> frozen s0"
    and "unauthorized_sender cfg sd = Some i"
  shows "requestSend H e r d t a k sd =
     Inr (logTransaction e d
            [(''action'', JStr ''rejected''), (''reason'', JStr ''unauthorized_sender''),
             (''sender'', JSender i), (''to'', JStr t), (''amount'', JNum a)],
          Rejected UnauthorizedSender)"
  using assms by (simp add: requestSend_def Let_def)

lemma req_throw:
  assumes "loadConfig H e d = Inr cfg" and "loadState H e d = Inr s0" and "\<not> frozen s0"
    and "unauthorized_sender cfg sd = None" and "isAllowed H e d t = Inl err"
  shows "requestSend H e r d t a k sd = Inl err"
  using assms by (simp add: requestSend_def Let_def)

lemma req_allowlist:
  assumes "loadConfig H e d = Inr cfg" and "loadState H e d = Inr s0" and "\<not> frozen s0"
    and "unauthorized_sender cfg sd = None" and "isAllowed H e d t = Inr False"
  shows "requestSend H e r d t a k sd =
     Inr (logTransaction e d
            [(''action'', JStr ''rejected''), (''reason'', JStr ''address_not_allowlisted''),
             (''to'', JStr t), (''amount'', JNum a)],
          Rejected (NotAllowlisted t))"
  using assms by (simp add: requestSend_def Let_def)

lemma req_per_tx:
  assumes "loadConfig H e d = Inr cfg" and "loadState H e d = Inr s0" and "\<not> frozen s0"
    and "unauthorized_sender cfg sd = None" and "isAllowed H e d t = Inr True"
    and "a > perTransaction (limits cfg)"
  shows "requestSend H e r d t a k sd =
     Inr (logTransaction e d
            [(''action'', JStr ''rejected''), (''reason'', JStr ''over_per_tx_limit''),
             (''to'', JStr t), (''amount'', JNum a)],
          Rejected (OverPerTxLimit a (perTransaction (limits cfg))))"
  using assms by (simp add: requestSend_def Let_def)

lemma req_daily:
  assumes "loadConfig H e d = Inr cfg" and "loadState H e d = Inr s0" and "\<not> frozen s0"
    and "unauthorized_sender cfg sd = None" and "isAllowed H e d t = Inr True"
    and "\<not> a > perTransaction (limits cfg)"
    and "js_add (dailyTotal (rollover e s0)) a > dailyMax (limits cfg)"
  shows "requestSend H e r d t a k sd =
     Inr (logTransaction e d
            [(''action'', JStr ''rejected''), (''reason'', JStr ''over_daily_limit''),
             (''to'', JStr t), (''amount'', JNum a)],
          Rejected (OverDailyLimit (dailyTotal (rollover e s0)) (dailyMax (limits cfg))))"
  using assms by (simp add: requestSend_def Let_def)

lemma req_cooldown:
  assumes "loadConfig H e d = Inr cfg" and "loadState H e d = Inr s0" and "\<not> frozen s0"
    and "unauthorized_sender cfg sd = None" and "isAllowed H e d t = Inr True"
    and "\<not> a > perTransaction (limits cfg)"
    and "\<not> js_add (dailyTotal (rollover e s0)) a > dailyMax (limits cfg)"
    and "cooldown_wait cfg (rollover e s0) (now e) = Some w"
  shows "requestSend H e r d t a k sd = Inr (d, Rejected (CooldownActive w))"
  using assms by (simp add: requestSend_def Let_def)

lemma req_anomaly:
  assumes "loadConfig H e d = Inr cfg" and "loadState H e d = Inr s0" and "\<not> frozen s0"
    and "unauthorized_sender cfg sd = None" and "isAllowed H e d t = Inr True"
    and "\<not> a > perTransaction (limits cfg)"
    and "\<not> js_add (dailyTotal (rollover e s0)) a > dailyMax (limits cfg)"
    and "cooldown_wait cfg (rollover e s0) (now e) = None"
    and "recent = filter (\<lambda>ts. js_div (of_int (now e - ts)) 1000
                               < of_int (windowSeconds (freezeOnAnomalies cfg)))
                    (recentRequests s0) @ [now e]"
    and "int (length recent) \<ge> rapidRequests (freezeOnAnomalies cfg)"
  shows "requestSend H e r d t a k sd =
     Inr (logTransaction e
            (saveState H e d
               ((rollover e s0)\<lparr>recentRequests := recent, frozen := True,
                                 frozenAt := Some (now e),
                                 frozenReason := Some ''anomaly_rapid_requests''\<rparr>))
            [(''action'', JStr ''auto_freeze''), (''reason'', JStr ''rapid_requests''),
             (''count'', JCount (length recent))],
          Rejected AutoFrozen)"
  using assms by (simp add: requestSend_def Let_def)

lemma req_issue:
  assumes "loadConfig H e d = Inr cfg" and "loadState H e d = Inr s0" and "\<not> frozen s0"
    and "unauthorized_sender cfg sd = None" and "isAllowed H e d t = Inr True"
    and "\<not> a > perTransaction (limits cfg)"
    and "\<not> js_add (dailyTotal (rollover e s0)) a > dailyMax (limits cfg)"
    and "cooldown_wait cfg (rollover e s0) (now e) = None"
    and "recent = filter (\<lambda>ts. js_div (of_int (now e - ts)) 1000
                               < of_int (windowSeconds (freezeOnAnomalies cfg)))
                    (recentRequests s0) @ [now e]"
    and "\<not> int (length recent) \<ge> rapidRequests (freezeOnAnomalies cfg)"
    and "tok = (case k of None \<Rightarrow> ''USDC'' | Some x \<Rightarrow> x)"
    and "c = String_int (randomInt 100000 999999 r)"
  shows "requestSend H e r d t a k sd =
     Inr (logTransaction e
            (saveState H e d
               ((rollover e s0)\<lparr>recentRequests := recent,
                  pendingConfirmation :=
                    Some \<lparr> code = c, to = t, amount = a, token = tok, sender = sd,
                           attempts = 0, createdAt = now e,
                           expiresAt = now e + codeExpiry (confirmation cfg) * 1000 \<rparr>\<rparr>))
            [(''action'', JStr ''confirmation_requested''), (''to'', JStr t),
             (''amount'', JNum a), (''token'', JStr tok)],
          NeedsConfirmation a tok t c (js_div (of_int (codeExpiry (confirmation cfg))) 60))"
  using assms by (simp add: requestSend_def Let_def)

text \<open>Every call of \<^verbatim>\<open>requestSend\<close> ends in one of five ways.\<close>

lemma requestSend_cases:
  obtains
    (throw) err where "requestSend H e r d t a k sd = Inl err"
  | (reject) ent rs where
      "requestSend H e r d t a k sd = Inr (logTransaction e d ent, Rejected rs)"
      "gate_of (Rejected rs) \<noteq> Some GateCooldown" "gate_of (Rejected rs) \<noteq> Some GateAnomaly"
      "gate_of (Rejected rs) \<noteq> None"
  | (cooldown) w where "requestSend H e r d t a k sd = Inr (d, Rejected (CooldownActive w))"
  | (autofreeze) s0 recent where
      "loadState H e d = Inr s0"
      "requestSend H e r d t a k sd =
         Inr (logTransaction e
                (saveState H e d
                   ((rollover e s0)\<lparr>recentRequests := recent, frozen := True,
                                     frozenAt := Some (now e),
                                     frozenReason := Some ''anomaly_rapid_requests''\<rparr>))
                [(''action'', JStr ''auto_freeze''), (''reason'', JStr ''rapid_requests''),
                 (''count'', JCount (length recent))],
              Rejected AutoFrozen)"
  | (issue) cfg s0 recent tok where
      "loadState H e d = Inr s0"
      "requestSend H e r d t a k sd =
         Inr (logTransaction e
                (saveState H e d
                   ((rollover e s0)\<lparr>recentRequests := recent,
                      pendingConfirmation :=
                        Some \<lparr> code = String_int (randomInt 100000 999999 r), to = t,
                               amount = a, token = tok, sender = sd,
                               attempts = 0, createdAt = now e,
                               expiresAt =
                                 now e + codeExpiry (confirmation (cfg :: config)) * 1000 \<rparr>\<rparr>))
                [(''action'', JStr ''confirmation_requested''), (''to'', JStr t),
                 (''amount'', JNum a), (''token'', JStr tok)],
              NeedsConfirmation a tok t (String_int (randomInt 100000 999999 r))
                (js_div (of_int (codeExpiry (confirmation cfg))) 60))"
proof (cases "loadConfig H e d")
  case (Inl err)
  then have "requestSend H e r d t a k sd = Inl err"
    by (simp add: requestSend_def)
  then show ?thesis by (rule throw)
next
  case cfg: (Inr cfg)
  show ?thesis
  proof (cases "loadState H e d")
    case (Inl err)
    with cfg have "requestSend H e r d t a k sd = Inl err"
      by (simp add: requestSend_def)
    then show ?thesis by (rule throw)
  next
    case st: (Inr s0)
    let ?recent = "filter (\<lambda>ts. js_div (of_int (now e - ts)) 1000
                                 < of_int (windowSeconds (freezeOnAnomalies cfg)))
                      (recentRequests s0) @ [now e]"
    show ?thesis
    proof (cases "frozen s0")
      case True
      show ?thesis using reject[OF req_frozen[OF cfg st True]] by simp
    next
      case f: False
      show ?thesis
      proof (cases "unauthorized_sender cfg sd")
        case (Some i)
        show ?thesis using reject[OF req_sender[OF cfg st f Some]] by simp
      next
        case u: None
        show ?thesis
        proof (cases "isAllowed H e d t")
          case (Inl err)
          show ?thesis using throw[OF req_throw[OF cfg st f u Inl]] .
        next
          case (Inr ok)
          show ?thesis
          proof (cases ok)
            case False
            with Inr have n: "isAllowed H e d t = Inr False" by simp
            show ?thesis using reject[OF req_allowlist[OF cfg st f u n]] by simp
          next
            case True
            with Inr have y: "isAllowed H e d t = Inr True" by simp
            show ?thesis
            proof (cases "a > perTransaction (limits cfg)")
              case True
              show ?thesis using reject[OF req_per_tx[OF cfg st f u y True]] by simp
            next
              case p: False
              show ?thesis
              proof (cases "js_add (dailyTotal (rollover e s0)) a > dailyMax (limits cfg)")
                case True
                show ?thesis using reject[OF req_daily[OF cfg st f u y p True]] by simp
              next
                case q: False
                show ?thesis
                proof (cases "cooldown_wait cfg (rollover e s0) (now e)")
                  case (Some w)
                  show ?thesis using cooldown[OF req_cooldown[OF cfg st f u y p q Some]] .
                next
                  case c: None
                  show ?thesis
                  proof (cases "int (length ?recent) \<ge> rapidRequests (freezeOnAnomalies cfg)")
                    case True
                    show ?thesis
                      using autofreeze[OF st req_anomaly[OF cfg st f u y p q c refl True]] .
                  next
                    case False
                    have "requestSend H e r d t a k sd =
                       Inr (logTransaction e
                         (saveState H e d
                           ((rollover e s0)\<lparr>recentRequests := ?recent,
                              pendingConfirmation :=
                                Some \<lparr> code = String_int (randomInt 100000 999999 r), to = t,
                                  amount = a,
                                  token = (case k of None \<Rightarrow> ''USDC'' | Some x \<Rightarrow> x),
                                  sender = sd, attempts = 0, createdAt = now e,
                                  expiresAt = now e + codeExpiry (confirmation cfg) * 1000 \<rparr>\<rparr>))
                         [(''action'', JStr ''confirmation_requested''), (''to'', JStr t),
                          (''amount'', JNum a),
                          (''token'', JStr (case k of None \<Rightarrow> ''USDC'' | Some x \<Rightarrow> x))],
                         NeedsConfirmation a (case k of None \<Rightarrow> ''USDC'' | Some x \<Rightarrow> x) t
                           (String_int (randomInt 100000 999999 r))
                           (js_div (of_int (codeExpiry (confirmation cfg))) 60))"
                      by (rule req_issue[OF cfg st f u y p q c refl False refl refl])
                    then show ?thesis by (rule issue[OF st])
                  qed
                qed
              qed
            qed
          qed
        qed
      qed
    qed
  qed
qed

lemma String_nat_small: "n < 10 \<Longrightarrow> String_nat n = [''0123456789'' ! n]"
  by (subst String_nat.simps) simp

lemma String_nat_big:
  "10 \<le> n \<Longrightarrow> String_nat n = String_nat (n div 10) @ [''0123456789'' ! (n mod 10)]"
  by (subst String_nat.simps) simp

lemma digit_value_nth: "n < 10 \<Longrightarrow> digit_value (''0123456789'' ! n) = n"
proof -
  assume n: "n < 10"
  have "list_all (\<lambda>n. digit_value (''0123456789'' ! n) = n) [0..<10]"
    by (simp add: upt_conv_Cons digit_value_def)
  with n show ?thesis by (simp add: list_all_iff)
qed

lemma parse_nat_snoc: "parse_nat (s @ [c]) = 10 * parse_nat s + digit_value c"
  by (simp add: parse_nat_def)

lemma parse_String_nat: "parse_nat (String_nat n) = n"
proof (induction n rule: String_nat.induct)
  case (1 n)
  show ?case
  proof (cases "n < 10")
    case True
    then show ?thesis
      by (simp add: String_nat_small parse_nat_def digit_value_nth)
  next
    case False
    with 1 have "parse_nat (String_nat (n div 10)) = n div 10" by simp
    with False show ?thesis
      by (simp add: String_nat_big parse_nat_snoc digit_value_nth)
  qed
qed

lemma randomInt_code_range:
  "100000 \<le> randomInt 100000 999999 r \<and> randomInt 100000 999999 r \<le> 999998"
proof -
  have "0 \<le> int r mod 899999" and "int r mod 899999 < 899999" by simp_all
  then show ?thesis by (simp add: randomInt_def)
qed

lemma code_not_999999: "String_int (randomInt 100000 999999 r) \<noteq> ''999999''"
proof
  let ?n = "randomInt 100000 999999 r"
  assume eq: "String_int ?n = ''999999''"
  have rng: "100000 \<le> ?n" "?n \<le> 999998" using randomInt_code_range[of r] by simp_all
  then have "String_int ?n = String_nat (nat ?n)" by (simp add: String_int_def)
  with eq have "parse_nat (String_nat (nat ?n)) = parse_nat ''999999''" by simp
  moreover have "parse_nat ''999999'' = 999999"
    by (simp add: parse_nat_def digit_value_def)
  ultimately have "nat ?n = 999999" by (simp only: parse_String_nat)
  with rng show False by simp
qed

lemmas eval_defs =
  requestSend_def confirmSend_def loadConfig_def loadState_def loadAllowlist_def isAllowed_def
  verify_def sign_def saveState_def saveSignatures_def loadSignatures_def read_file_def
  getSecret_def logTransaction_def rollover_def today_def cooldown_wait_def
  unauthorized_sender_def sender_mismatch_def toLowerCase_def lower_char_def hex_val_def
  hex_digit_def toy_mac_def DEFAULT_CONFIG_def randomInt_def String_int_def String_nat_small
  String_nat_big Let_def env0_def js_add_samples js_time_samples

lemma issue_eval:
  "requestSend toy_mac env0 23456 disk_allow ''0x123456'' 5 None None =
     Inr (disk_allow
            \<lparr>state_json :=
               Some \<lparr> frozen = False, frozenAt = None, frozenReason = None, dailyTotal = 0,
                      dailyDate = 20759, lastTransaction = None,
                      pendingConfirmation =
                        Some \<lparr> code = ''123456'', to = ''0x123456'', amount = 5,
                               token = ''USDC'', sender = None, attempts = 0,
                               createdAt = 1793592000000, expiresAt = 1793592300000 \<rparr>,
                      recentRequests = [1793592000000] \<rparr>,
             signatures := Some [(''allowlist.json'', ''1103''), (''state.json'', ''1100'')],
             transactions_log :=
               [[(''action'', JStr ''confirmation_requested''), (''to'', JStr ''0x123456''),
                 (''amount'', JNum 5), (''token'', JStr ''USDC''),
                 (''timestamp'', JTime 1793592000000)]]\<rparr>,
          NeedsConfirmation 5 ''USDC'' ''0x123456'' ''123456'' 5)"
  by (simp add: eval_defs disk_allow_def allowlist0_def)

lemma issue_eval_b:
  "requestSend toy_mac env0 7 disk_allow ''0x123456'' 5 None None =
     Inr (disk_allow
            \<lparr>state_json :=
               Some \<lparr> frozen = False, frozenAt = None, frozenReason = None, dailyTotal = 0,
                      dailyDate = 20759, lastTransaction = None,
                      pendingConfirmation =
                        Some \<lparr> code = ''100007'', to = ''0x123456'', amount = 5,
                               token = ''USDC'', sender = None, attempts = 0,
                               createdAt = 1793592000000, expiresAt = 1793592300000 \<rparr>,
                      recentRequests = [1793592000000] \<rparr>,
             signatures := Some [(''allowlist.json'', ''1103''), (''state.json'', ''1100'')],
             transactions_log :=
               [[(''action'', JStr ''confirmation_requested''), (''to'', JStr ''0x123456''),
                 (''amount'', JNum 5), (''token'', JStr ''USDC''),
                 (''timestamp'', JTime 1793592000000)]]\<rparr>,
          NeedsConfirmation 5 ''USDC'' ''0x123456'' ''100007'' 5)"
  by (simp add: eval_defs disk_allow_def allowlist0_def)

lemma cooldown_eval:
  "requestSend toy_mac env0 0 disk_recent ''0x123456'' 5 None None =
     Inr (disk_recent, Rejected (CooldownActive 20))"
  by (simp add: eval_defs disk_recent_def allowlist0_def state_recent_def)

lemma confirmSend_cases:
  obtains
    (throw) err where "confirmSend H e d c sd = Inl err"
  | (nopending) "confirmSend H e d c sd = Inr (d, Rejected NoPending)"
  | (expired) s p where "loadState H e d = Inr s" "pendingConfirmation s = Some p"
      "confirmSend H e d c sd =
         Inr (logTransaction e (saveState H e d (s\<lparr>pendingConfirmation := None\<rparr>))
                [(''action'', JStr ''confirmation_expired''), (''to'', JStr (to p)),
                 (''amount'', JNum (amount p))],
              Rejected CodeExpired)"
  | (mismatch) s p where "loadState H e d = Inr s" "pendingConfirmation s = Some p"
      "confirmSend H e d c sd =
         Inr (logTransaction e d
                [(''action'', JStr ''sender_mismatch''), (''to'', JStr (to p)),
                 (''amount'', JNum (amount p))],
              Rejected SenderMismatch)"
  | (wrong) s p where "loadState H e d = Inr s" "pendingConfirmation s = Some p"
      "now e \<le> expiresAt p" "\<not> sender_mismatch (sender p) sd" "c \<noteq> code p"
  | (match) s p where "loadState H e d = Inr s" "pendingConfirmation s = Some p"
      "now e \<le> expiresAt p" "\<not> sender_mismatch (sender p) sd" "c = code p"
proof (cases "loadState H e d")
  case (Inl err)
  then have "confirmSend H e d c sd = Inl err" by (simp add: confirmSend_def)
  then show ?thesis by (rule throw)
next
  case st: (Inr s)
  show ?thesis
  proof (cases "pendingConfirmation s")
    case None
    show ?thesis using nopending confirmSend_none[OF st None] by simp
  next
    case (Some p)
    show ?thesis
    proof (cases "now e > expiresAt p")
      case True
      with st Some show ?thesis
        by (intro expired[of s p]) (simp_all add: confirmSend_def Let_def)
    next
      case x: False
      show ?thesis
      proof (cases "sender_mismatch (sender p) sd")
        case True
        with st Some x show ?thesis
          by (intro mismatch[of s p]) (simp_all add: confirmSend_def Let_def)
      next
        case False
        with st Some x show ?thesis
          by (cases "c = code p") (auto intro: wrong match)
      qed
    qed
  qed
qed

lemma stored_dailyTotal_log [simp]:
  "stored_dailyTotal (logTransaction e d ent) = stored_dailyTotal d"
  by (simp add: stored_dailyTotal_def)

lemma stored_dailyTotal_save [simp]:
  "stored_dailyTotal (saveState H e d s) = dailyTotal s"
  by (simp add: stored_dailyTotal_def)

lemma loadState_total:
  assumes "loadState H e d = Inr s"
  shows "dailyTotal s = stored_dailyTotal d" and "(dailyDate s \<noteq> today e) = date_rolled e d"
  using assms
  by (auto simp: loadState_def stored_dailyTotal_def date_rolled_def
      split: option.splits if_splits)

lemma rollover_total:
  assumes "loadState H e d = Inr s"
  shows "dailyTotal (rollover e s) = stored_dailyTotal d \<or>
         (date_rolled e d \<and> dailyTotal (rollover e s) = 0)"
  using loadState_total[OF assms] by (auto simp: rollover_def)

lemma requestSend_total:
  "stored_dailyTotal (disk_after d (requestSend H e r d t a k sd)) = stored_dailyTotal d \<or>
   (date_rolled e d \<and> stored_dailyTotal (disk_after d (requestSend H e r d t a k sd)) = 0)"
proof (cases rule: requestSend_cases[of H e r d t a k sd])
  case (autofreeze s0 recent)
  with rollover_total[OF autofreeze(1)] show ?thesis by (simp add: rollover_def)
next
  case (issue cfg s0 recent tok)
  with rollover_total[OF issue(1)] show ?thesis by (simp add: rollover_def)
qed simp_all


lemma freeze_total:
  "stored_dailyTotal (disk_after d (freeze H e d why)) = stored_dailyTotal d"
  by (cases "loadState H e d") (simp_all add: freeze_def Let_def loadState_total)

lemma unfreeze_total:
  "stored_dailyTotal (disk_after d (unfreeze H e d)) = stored_dailyTotal d"
  by (cases "loadState H e d") (simp_all add: unfreeze_def Let_def loadState_total)

lemma getStatus_total:
  "stored_dailyTotal (disk_after d (getStatus H e d)) = stored_dailyTotal d \<or>
   (date_rolled e d \<and> stored_dailyTotal (disk_after d (getStatus H e d)) = 0)"
proof (cases "loadState H e d")
  case (Inl err)
  then show ?thesis by (simp add: getStatus_def)
next
  case st: (Inr s)
  show ?thesis
  proof (cases "loadConfig H e d")
    case (Inl err)
    with st show ?thesis by (simp add: getStatus_def)
  next
    case (Inr cfg)
    with st rollover_total[OF st] show ?thesis
      by (auto simp: getStatus_def Let_def)
  qed
qed

lemma confirmSend_total:
  assumes "outcome (confirmSend H e d c sd) = Some res" and "\<not> approved res"
  shows "stored_dailyTotal (disk_after d (confirmSend H e d c sd)) = stored_dailyTotal d"
proof (cases rule: confirmSend_cases[of H e d c sd])
  case (expired s p)
  then show ?thesis by (simp add: loadState_total)
next
  case (wrong s p)
  from confirmSend_wrong[OF wrong] loadState_total(1)[OF wrong(1)] show ?thesis by simp
next
  case (match s p)
  from confirmSend_match[OF match(1-4)] match(5) assms show ?thesis by auto
qed simp_all

lemma confirmSend_throw_total:
  assumes "outcome (confirmSend H e d c sd) = None"
  shows "disk_after d (confirmSend H e d c sd) = d"
  using assms by (cases "confirmSend H e d c sd") auto

lemma confirmSend_mismatch_state:
  assumes "outcome (confirmSend H e d c sd) = Some (Rejected SenderMismatch)"
  shows "state_json (disk_after d (confirmSend H e d c sd)) = state_json d"
proof (cases rule: confirmSend_cases[of H e d c sd])
  case (expired s p)
  with assms show ?thesis by simp
next
  case (wrong s p)
  from confirmSend_wrong[OF wrong] assms show ?thesis by (simp split: if_splits)
next
  case (match s p)
  from confirmSend_match[OF match(1-4)] match(5) assms show ?thesis by simp
qed simp_all

lemma disk_from_a_eq:
  "disk_from_a = \<lparr> config_json = None, allowlist_json = None, state_json = Some state_from_a,
                   signatures = Some [(''state.json'', ''1100'')], transactions_log = [] \<rparr>"
  by (simp add: disk_from_a_def saveState_def sign_def getSecret_def env0_def read_file_def
      disk_empty_def toy_mac_def state_from_a_def state0_def saveSignatures_def
      loadSignatures_def hex_digit_def Let_def)

lemma erase_code_fields:
  assumes "erase_code s2 = erase_code s"
  shows "frozen s2 = frozen s" and "dailyTotal s2 = dailyTotal s" and "dailyDate s2 = dailyDate s"
    and "lastTransaction s2 = lastTransaction s" and "recentRequests s2 = recentRequests s"
    and "map_option (\<lambda>p. p\<lparr>code := []\<rparr>) (pendingConfirmation s2) =
         map_option (\<lambda>p. p\<lparr>code := []\<rparr>) (pendingConfirmation s)"
  using arg_cong[OF assms, of frozen] arg_cong[OF assms, of dailyTotal]
    arg_cong[OF assms, of dailyDate] arg_cong[OF assms, of lastTransaction]
    arg_cong[OF assms, of recentRequests] arg_cong[OF assms, of pendingConfirmation]
  by (simp_all add: erase_code_def)

lemma pending_fields:
  assumes "p2\<lparr>code := []\<rparr> = p\<lparr>code := []\<rparr>"
  shows "to p2 = to p" and "amount p2 = amount p" and "token p2 = token p"
    and "sender p2 = sender p" and "attempts p2 = attempts p" and "expiresAt p2 = expiresAt p"
  using arg_cong[OF assms, of to] arg_cong[OF assms, of amount] arg_cong[OF assms, of token]
    arg_cong[OF assms, of sender] arg_cong[OF assms, of attempts]
    arg_cong[OF assms, of expiresAt]
  by simp_all

lemma rollover_fields:
  assumes "dailyTotal s2 = dailyTotal s" and "dailyDate s2 = dailyDate s"
  shows "dailyTotal (rollover e s2) = dailyTotal (rollover e s)"
  using assms by (simp add: rollover_def)

lemma cooldown_wait_fields:
  assumes "lastTransaction s2 = lastTransaction s"
  shows "cooldown_wait cfg (rollover e s2) t = cooldown_wait cfg (rollover e s) t"
  using assms by (simp add: cooldown_wait_def)

text \<open>Blanking the code commutes with the updates the engine makes.\<close>

lemma erase_code_updates [simp]:
  "erase_code (s\<lparr>frozen := b\<rparr>) = (erase_code s)\<lparr>frozen := b\<rparr>"
  "erase_code (s\<lparr>frozenAt := fa\<rparr>) = (erase_code s)\<lparr>frozenAt := fa\<rparr>"
  "erase_code (s\<lparr>frozenReason := fr\<rparr>) = (erase_code s)\<lparr>frozenReason := fr\<rparr>"
  "erase_code (s\<lparr>dailyTotal := dt\<rparr>) = (erase_code s)\<lparr>dailyTotal := dt\<rparr>"
  "erase_code (s\<lparr>dailyDate := dd\<rparr>) = (erase_code s)\<lparr>dailyDate := dd\<rparr>"
  "erase_code (s\<lparr>lastTransaction := lt\<rparr>) = (erase_code s)\<lparr>lastTransaction := lt\<rparr>"
  "erase_code (s\<lparr>recentRequests := rr\<rparr>) = (erase_code s)\<lparr>recentRequests := rr\<rparr>"
  "erase_code (s\<lparr>pendingConfirmation := pc\<rparr>) =
     (erase_code s)\<lparr>pendingConfirmation := map_option (\<lambda>p. p\<lparr>code := []\<rparr>) pc\<rparr>"
  by (simp_all add: erase_code_def)

lemma erase_code_selectors [simp]:
  "frozen (erase_code s) = frozen s" "dailyTotal (erase_code s) = dailyTotal s"
  "dailyDate (erase_code s) = dailyDate s" "lastTransaction (erase_code s) = lastTransaction s"
  "recentRequests (erase_code s) = recentRequests s"
  by (simp_all add: erase_code_def)

lemma erase_code_rollover [simp]: "erase_code (rollover e s) = rollover e (erase_code s)"
  by (simp add: rollover_def)

lemma erase_attempts:
  assumes "p2\<lparr>code := []\<rparr> = p\<lparr>code := []\<rparr>"
  shows "p2\<lparr>attempts := n, code := []\<rparr> = p\<lparr>attempts := n, code := []\<rparr>"
  using assms by (cases p, cases p2) simp

text \<open>What \<open>without_code\<close> sees after a write.\<close>

lemma verify_secret: "getSecret e = getSecret e' \<Longrightarrow> verify H e d f = verify H e' d f"
  by (simp add: verify_def)

lemma verify_cong_file:
  "read_file d2 f = read_file d f \<Longrightarrow> map_of (loadSignatures d2) f = map_of (loadSignatures d) f
     \<Longrightarrow> verify H e d2 f = verify H e d f"
  by (simp add: verify_def split: option.splits)

lemma signatures_saveState:
  "f \<noteq> ''state.json'' \<Longrightarrow>
     map_of (loadSignatures (saveState H e d s)) f = map_of (loadSignatures d) f"
  by (simp add: saveState_def sign_def saveSignatures_def loadSignatures_def read_file_def
      update_conv' Let_def split: option.splits)

lemma logTransaction_files [simp]:
  "config_json (logTransaction e d ent) = config_json d"
  "allowlist_json (logTransaction e d ent) = allowlist_json d"
  by (simp_all add: logTransaction_def)

lemma without_code_log [simp]:
  "without_code H e0 (logTransaction e d ent) =
     (config_json d, allowlist_json d,
      transactions_log d @ [ent @ [(''timestamp'', JTime (now e))]],
      map_option erase_code (state_json d),
      map_of (loadSignatures d) ''config.json'',
      map_of (loadSignatures d) ''allowlist.json'',
      verify H e0 d ''state.json'')"
  by (simp add: without_code_def)

lemma without_code_save:
  assumes "\<And>k c. H k c \<noteq> []" and "getSecret e = getSecret e0"
  shows "without_code H e0 (saveState H e d s) =
     (config_json d, allowlist_json d, transactions_log d, Some (erase_code s),
      map_of (loadSignatures d) ''config.json'',
      map_of (loadSignatures d) ''allowlist.json'', True)"
  using verify_saveState[OF assms(1) assms(2)[symmetric], where d = d and s = s]
  by (simp add: without_code_def signatures_saveState)

text \<open>What the loads see in two directories that agree apart from the code.\<close>

lemma rel_fields:
  assumes "without_code H e0 d2 = without_code H e0 d"
  shows "config_json d2 = config_json d" and "allowlist_json d2 = allowlist_json d"
    and "transactions_log d2 = transactions_log d"
    and "map_option erase_code (state_json d2) = map_option erase_code (state_json d)"
    and "map_of (loadSignatures d2) ''config.json'' = map_of (loadSignatures d) ''config.json''"
    and "map_of (loadSignatures d2) ''allowlist.json'' =
         map_of (loadSignatures d) ''allowlist.json''"
    and "verify H e0 d2 ''state.json'' = verify H e0 d ''state.json''"
  using assms by (simp_all add: without_code_def)

lemma rel_loads:
  assumes rel: "without_code H e0 d2 = without_code H e0 d" and sec: "getSecret e = getSecret e0"
  shows "loadConfig H e d2 = loadConfig H e d"
    and "loadAllowlist H e d2 = loadAllowlist H e d"
    and "map_sum id erase_code (loadState H e d2) = map_sum id erase_code (loadState H e d)"
proof -
  note f = rel_fields[OF rel]
  have vc: "verify H e d2 ''config.json'' = verify H e d ''config.json''"
    by (rule verify_cong_file) (simp_all add: read_file_def f)
  have va: "verify H e d2 ''allowlist.json'' = verify H e d ''allowlist.json''"
    by (rule verify_cong_file) (simp_all add: read_file_def f)
  have vs: "verify H e d2 ''state.json'' = verify H e d ''state.json''"
    using f(7) verify_secret[OF sec, of H d2 "''state.json''"]
      verify_secret[OF sec, of H d "''state.json''"] by simp
  show "loadConfig H e d2 = loadConfig H e d"
    by (simp add: loadConfig_def f vc split: option.splits)
  show "loadAllowlist H e d2 = loadAllowlist H e d"
    by (simp add: loadAllowlist_def f va split: option.splits)
  show "map_sum id erase_code (loadState H e d2) = map_sum id erase_code (loadState H e d)"
    using f(4) vs by (cases "state_json d"; cases "state_json d2") (auto simp: loadState_def)
qed

lemma step_requestSend:
  assumes mac: "\<And>k c. H k c \<noteq> []" and sec: "getSecret e = getSecret e0"
    and rel: "without_code H e0 d2 = without_code H e0 d"
  shows "without_code H e0 (disk_after d2 (requestSend H e r2 d2 t a k sd)) =
         without_code H e0 (disk_after d (requestSend H e r d t a k sd))"
proof (cases "loadConfig H e d")
  case (Inl err)
  with rel_loads(1)[OF rel sec] rel show ?thesis by (simp add: requestSend_def)
next
  case c: (Inr g)
  note c2 = rel_loads(1)[OF rel sec]
  show ?thesis
  proof (cases "loadState H e d")
    case (Inl err)
    with rel_loads(3)[OF rel sec] have "loadState H e d2 = Inl err"
      by (cases "loadState H e d2") simp_all
    with Inl c c2 rel show ?thesis by (simp add: requestSend_def)
  next
    case s: (Inr s)
    with rel_loads(3)[OF rel sec] obtain s2 where s2: "loadState H e d2 = Inr s2"
      and er: "erase_code s2 = erase_code s"
      by (cases "loadState H e d2") simp_all
    note f = erase_code_fields[OF er]
    note g = rel_fields[OF rel]
    have ia: "isAllowed H e d2 t = isAllowed H e d t"
      by (simp add: isAllowed_def rel_loads(2)[OF rel sec])
    have v: "verify H e0 d2 ''state.json'' = verify H e0 d ''state.json''" by (rule g(7))
    show ?thesis
      using c c2 s s2
      by (simp add: requestSend_def Let_def ia f(1,5) rollover_fields[OF f(2,3)]
          cooldown_wait_fields[OF f(4)] rel g er v signatures_saveState
          verify_saveState[OF mac sec[symmetric]]
          split: option.split sum.split)
  qed
qed

lemma step_confirmSend:
  assumes mac: "\<And>k c. H k c \<noteq> []" and sec: "getSecret e = getSecret e0"
    and rel: "without_code H e0 d2 = without_code H e0 d"
    and cm: "code_matches H e d2 c2 = code_matches H e d c"
  shows "without_code H e0 (disk_after d2 (confirmSend H e d2 c2 sd)) =
         without_code H e0 (disk_after d (confirmSend H e d c sd))"
proof (cases "loadState H e d")
  case (Inl err)
  with rel_loads(3)[OF rel sec] have "loadState H e d2 = Inl err"
    by (cases "loadState H e d2") simp_all
  with Inl rel show ?thesis by (simp add: confirmSend_def)
next
  case s: (Inr s)
  with rel_loads(3)[OF rel sec] obtain s2 where s2: "loadState H e d2 = Inr s2"
    and er: "erase_code s2 = erase_code s"
    by (cases "loadState H e d2") simp_all
  note f = erase_code_fields[OF er]
  note g = rel_fields[OF rel]
  show ?thesis
  proof (cases "pendingConfirmation s")
    case None
    with f(6) have "pendingConfirmation s2 = None" by simp
    with None s s2 rel show ?thesis by (simp add: confirmSend_def)
  next
    case (Some p)
    with f(6) obtain p2 where p2: "pendingConfirmation s2 = Some p2"
      and pe: "p2\<lparr>code := []\<rparr> = p\<lparr>code := []\<rparr>"
      by (cases "pendingConfirmation s2") simp_all
    note h = pending_fields[OF pe]
    from cm s s2 Some p2 have m: "(c2 = code p2) = (c = code p)"
      by (simp add: code_matches_def)
    show ?thesis
      using s s2 Some p2 m
      by (simp add: confirmSend_def Let_def h f(2) g er erase_attempts[OF pe]
          signatures_saveState verify_saveState[OF mac sec[symmetric]])
  qed
qed

lemma step_freeze:
  assumes mac: "\<And>k c. H k c \<noteq> []" and sec: "getSecret e = getSecret e0"
    and rel: "without_code H e0 d2 = without_code H e0 d"
  shows "without_code H e0 (disk_after d2 (freeze H e d2 w)) =
         without_code H e0 (disk_after d (freeze H e d w))"
proof (cases "loadState H e d")
  case (Inl err)
  with rel_loads(3)[OF rel sec] have "loadState H e d2 = Inl err"
    by (cases "loadState H e d2") simp_all
  with Inl rel show ?thesis by (simp add: freeze_def)
next
  case s: (Inr s)
  with rel_loads(3)[OF rel sec] obtain s2 where s2: "loadState H e d2 = Inr s2"
    and er: "erase_code s2 = erase_code s"
    by (cases "loadState H e d2") simp_all
  note g = rel_fields[OF rel]
  show ?thesis
    using s s2
    by (simp add: freeze_def Let_def g er signatures_saveState
        verify_saveState[OF mac sec[symmetric]])
qed

lemma step_unfreeze:
  assumes mac: "\<And>k c. H k c \<noteq> []" and sec: "getSecret e = getSecret e0"
    and rel: "without_code H e0 d2 = without_code H e0 d"
  shows "without_code H e0 (disk_after d2 (unfreeze H e d2)) =
         without_code H e0 (disk_after d (unfreeze H e d))"
proof (cases "loadState H e d")
  case (Inl err)
  with rel_loads(3)[OF rel sec] have "loadState H e d2 = Inl err"
    by (cases "loadState H e d2") simp_all
  with Inl rel show ?thesis by (simp add: unfreeze_def)
next
  case s: (Inr s)
  with rel_loads(3)[OF rel sec] obtain s2 where s2: "loadState H e d2 = Inr s2"
    and er: "erase_code s2 = erase_code s"
    by (cases "loadState H e d2") simp_all
  note g = rel_fields[OF rel]
  show ?thesis
    using s s2
    by (simp add: unfreeze_def Let_def g er signatures_saveState
        verify_saveState[OF mac sec[symmetric]])
qed

lemma step_getStatus:
  assumes mac: "\<And>k c. H k c \<noteq> []" and sec: "getSecret e = getSecret e0"
    and rel: "without_code H e0 d2 = without_code H e0 d"
  shows "without_code H e0 (disk_after d2 (getStatus H e d2)) =
         without_code H e0 (disk_after d (getStatus H e d))"
proof (cases "loadState H e d")
  case (Inl err)
  with rel_loads(3)[OF rel sec] have "loadState H e d2 = Inl err"
    by (cases "loadState H e d2") simp_all
  with Inl rel show ?thesis by (simp add: getStatus_def)
next
  case s: (Inr s)
  with rel_loads(3)[OF rel sec] obtain s2 where s2: "loadState H e d2 = Inr s2"
    and er: "erase_code s2 = erase_code s"
    by (cases "loadState H e d2") simp_all
  note f = erase_code_fields[OF er]
  note g = rel_fields[OF rel]
  show ?thesis
    using s s2 rel
    by (simp add: getStatus_def Let_def rel_loads(1)[OF rel sec] f(3) g
        without_code_save[OF mac sec] er split: sum.split)
qed

lemma step_run:
  assumes mac: "\<And>k c. H k c \<noteq> []" and sec: "getSecret e = getSecret e0"
    and rel: "without_code H e0 d2 = without_code H e0 d"
    and call: "same_call H e d d2 c c2"
  shows "without_code H e0 (fst (run H e d2 c2)) = without_code H e0 (fst (run H e d c))"
proof (cases c)
  case (RequestSend r t a k sd)
  with call obtain r2 where "c2 = RequestSend r2 t a k sd" by (cases c2) simp_all
  with RequestSend step_requestSend[OF mac sec rel] show ?thesis by (simp add: Let_def)
next
  case (ConfirmSend x sd)
  with call obtain x2 where "c2 = ConfirmSend x2 sd"
    and "code_matches H e d2 x2 = code_matches H e d x" by (cases c2) simp_all
  with ConfirmSend step_confirmSend[OF mac sec rel] show ?thesis by (simp add: Let_def)
next
  case (Freeze w)
  with call have "c2 = Freeze w" by (cases c2) simp_all
  with Freeze step_freeze[OF mac sec rel] show ?thesis by simp
next
  case Unfreeze
  with call have "c2 = Unfreeze" by (cases c2) simp_all
  with Unfreeze step_unfreeze[OF mac sec rel] show ?thesis by simp
next
  case GetStatus
  with call have "c2 = GetStatus" by (cases c2) simp_all
  with GetStatus step_getStatus[OF mac sec rel] show ?thesis by simp
qed

lemma run_all_without_code:
  assumes mac: "\<And>k c. H k c \<noteq> []"
    and rel: "without_code H e0 d2 = without_code H e0 d"
    and tr: "same_trace H e0 d d2 cs cs2"
  shows "without_code H e0 (run_all H d2 cs2) = without_code H e0 (run_all H d cs)"
  using rel tr
proof (induction cs arbitrary: d d2 cs2)
  case Nil
  then show ?case by (cases cs2) simp_all
next
  case (Cons x cs)
  obtain e c where x: "x = (e, c)" by (cases x)
  from Cons.prems(2) x obtain e2 c2 cs2' where cs2: "cs2 = (e2, c2) # cs2'"
    by (cases cs2) auto
  from Cons.prems(2) x cs2 have eq: "e2 = e" and sec: "getSecret e = getSecret e0"
    and call: "same_call H e d d2 c c2"
    and rest: "same_trace H e0 (fst (run H e d c)) (fst (run H e d2 c2)) cs cs2'"
    by simp_all
  from Cons.IH[OF step_run[OF mac sec Cons.prems(1) call] rest] x cs2 eq
  show ?case by simp
qed

section \<open>Claims\<close>

text \<open>
  C1. Starting from a pending confirmation with no failed attempt (as \<^verbatim>\<open>requestSend\<close>
  creates it), three calls of \<^verbatim>\<open>confirmSend\<close> with a wrong code, before the expiry and
  with no sender mismatch, raise \<^verbatim>\<open>attempts\<close> by one each: the first leaves the
  confirmation pending with one attempt, the second with two, and the third, which logs
  three attempts, sets it to null. A fourth call, with any code, finds nothing pending.
  The secret is the same in the four calls, and the keyed hash never returns an empty
  digest.
\<close>

theorem three_wrong_codes:
  assumes mac: "\<And>k c. H k c \<noteq> []"
    and load: "loadState H ea d = Inr s"
    and pend: "pendingConfirmation s = Some p" and fresh: "attempts p = 0"
    and secret: "getSecret eb = getSecret ea" "getSecret ec = getSecret ea"
                "getSecret ed = getSecret ea"
    and unexpired: "now ea \<le> expiresAt p" "now eb \<le> expiresAt p" "now ec \<le> expiresAt p"
    and sender: "\<not> sender_mismatch (sender p) sa" "\<not> sender_mismatch (sender p) sb"
                "\<not> sender_mismatch (sender p) sc"
    and wrong: "ca \<noteq> code p" "cb \<noteq> code p" "cc \<noteq> code p"
  shows "\<exists>d1 d2 d3.
      confirmSend H ea d ca sa = Inr (d1, Rejected (WrongCode 2))
    \<and> state_json d1 = Some (s\<lparr>pendingConfirmation := Some (p\<lparr>attempts := 1\<rparr>)\<rparr>)
    \<and> confirmSend H eb d1 cb sb = Inr (d2, Rejected (WrongCode 1))
    \<and> state_json d2 = Some (s\<lparr>pendingConfirmation := Some (p\<lparr>attempts := 2\<rparr>)\<rparr>)
    \<and> confirmSend H ec d2 cc sc = Inr (d3, Rejected BruteForceCancelled)
    \<and> state_json d3 = Some (s\<lparr>pendingConfirmation := None\<rparr>)
    \<and> last (transactions_log d3) =
         [(''action'', JStr ''brute_force_cancel''), (''to'', JStr (to p)),
          (''amount'', JNum (amount p)), (''attempts'', JCount 3),
          (''timestamp'', JTime (now ec))]
    \<and> confirmSend H ed d3 cd sf = Inr (d3, Rejected NoPending)"
proof -
  let ?p1 = "p\<lparr>attempts := 1\<rparr>" and ?p2 = "p\<lparr>attempts := 2\<rparr>"
  let ?s1 = "s\<lparr>pendingConfirmation := Some ?p1\<rparr>"
  let ?s2 = "s\<lparr>pendingConfirmation := Some ?p2\<rparr>"
  let ?s3 = "s\<lparr>pendingConfirmation := None\<rparr>"
  let ?d1 = "logTransaction ea (saveState H ea d ?s1)
               [(''action'', JStr ''wrong_code''), (''to'', JStr (to p)),
                (''amount'', JNum (amount p))]"
  let ?d2 = "logTransaction eb (saveState H eb ?d1 ?s2)
               [(''action'', JStr ''wrong_code''), (''to'', JStr (to p)),
                (''amount'', JNum (amount p))]"
  let ?d3 = "logTransaction ec (saveState H ec ?d2 ?s3)
               [(''action'', JStr ''brute_force_cancel''), (''to'', JStr (to p)),
                (''amount'', JNum (amount p)), (''attempts'', JCount 3)]"
  have ca: "confirmSend H ea d ca sa = Inr (?d1, Rejected (WrongCode 2))"
    using confirmSend_wrong[OF load pend unexpired(1) sender(1) wrong(1)] fresh
    by (simp add: MAX_CONFIRM_ATTEMPTS_def)
  have l1: "loadState H eb ?d1 = Inr ?s1"
    by (simp add: loadState_saveState[OF mac secret(1)])
  have cb: "confirmSend H eb ?d1 cb sb = Inr (?d2, Rejected (WrongCode 1))"
    using confirmSend_wrong[OF l1, of ?p1 sb cb] unexpired(2) sender(2) wrong(2)
    by (simp add: MAX_CONFIRM_ATTEMPTS_def numeral_2_eq_2)
  have l2: "loadState H ec ?d2 = Inr ?s2"
    by (simp add: loadState_saveState[OF mac] secret)
  have cc: "confirmSend H ec ?d2 cc sc = Inr (?d3, Rejected BruteForceCancelled)"
    using confirmSend_wrong[OF l2, of ?p2 sc cc] unexpired(3) sender(3) wrong(3)
    by (simp add: MAX_CONFIRM_ATTEMPTS_def)
  have l3: "loadState H ed ?d3 = Inr ?s3"
    by (simp add: loadState_saveState[OF mac] secret)
  have cd: "confirmSend H ed ?d3 cd sf = Inr (?d3, Rejected NoPending)"
    using confirmSend_none[OF l3] by simp
  show ?thesis
    using ca cb cc cd by (intro exI[of _ ?d1] exI[of _ ?d2] exI[of _ ?d3]) simp
qed


theorem three_wrong_codes_witness:
  "\<exists>d1 d2 d3.
      confirmSend toy_mac env0 disk0 ''000001'' None = Inr (d1, Rejected (WrongCode 2))
    \<and> map_option pendingConfirmation (state_json d1) = Some (Some (pending0\<lparr>attempts := 1\<rparr>))
    \<and> confirmSend toy_mac env0 d1 ''000002'' None = Inr (d2, Rejected (WrongCode 1))
    \<and> map_option pendingConfirmation (state_json d2) = Some (Some (pending0\<lparr>attempts := 2\<rparr>))
    \<and> confirmSend toy_mac env0 d2 ''000003'' None = Inr (d3, Rejected BruteForceCancelled)
    \<and> map_option pendingConfirmation (state_json d3) = Some None
    \<and> confirmSend toy_mac env0 d3 ''483920'' None = Inr (d3, Rejected NoPending)"
proof -
  have p: "pendingConfirmation state0 = Some pending0"
    by (simp add: state0_def)
  have a: "attempts pending0 = 0"
    by (simp add: pending0_def)
  have x: "now env0 \<le> expiresAt pending0"
    by (simp add: env0_def pending0_def)
  have m: "\<not> sender_mismatch (sender pending0) None"
    by (simp add: sender_mismatch_def pending0_def)
  have w: "''000001'' \<noteq> code pending0" "''000002'' \<noteq> code pending0"
    "''000003'' \<noteq> code pending0"
    by (simp_all add: pending0_def)
  from three_wrong_codes[of toy_mac env0 disk0 state0 pending0 env0 env0 env0 None None None
      "''000001''" "''000002''" "''000003''" "''483920''" None,
      OF toy_mac_nonempty load0 p a refl refl refl x x x m m m w]
  obtain d1 d2 d3 where
    "confirmSend toy_mac env0 disk0 ''000001'' None = Inr (d1, Rejected (WrongCode 2))"
    "state_json d1 = Some (state0\<lparr>pendingConfirmation := Some (pending0\<lparr>attempts := 1\<rparr>)\<rparr>)"
    "confirmSend toy_mac env0 d1 ''000002'' None = Inr (d2, Rejected (WrongCode 1))"
    "state_json d2 = Some (state0\<lparr>pendingConfirmation := Some (pending0\<lparr>attempts := 2\<rparr>)\<rparr>)"
    "confirmSend toy_mac env0 d2 ''000003'' None = Inr (d3, Rejected BruteForceCancelled)"
    "state_json d3 = Some (state0\<lparr>pendingConfirmation := None\<rparr>)"
    "confirmSend toy_mac env0 d3 ''483920'' None = Inr (d3, Rejected NoPending)"
    by blast
  then show ?thesis
    by (intro exI[of _ d1] exI[of _ d2] exI[of _ d3]) simp
qed

text \<open>
  C2. When the configuration, the state and the allowlist load, \<^verbatim>\<open>requestSend\<close> returns, and
  the check its result reports is the first check that fails in the order frozen, sender
  authorization, allowlist, per-transaction limit, daily limit, cooldown, anomaly window
  (evaluated on the state after the daily reset); it issues a code when none fails. When
  the wallet is frozen the result is the frozen rejection, and neither the stored state
  (so \<^verbatim>\<open>recentRequests\<close>) nor the signatures change: the call only appends one log entry.
\<close>

theorem requestSend_first_failing_gate:
  assumes cfg: "loadConfig H e d = Inr cfg" and st: "loadState H e d = Inr s0"
    and al: "loadAllowlist H e d = Inr al"
  shows "\<exists>d' res. requestSend H e r d to_arg amt tok sd = Inr (d', res)
           \<and> gate_of res = first_failing_gate cfg al e s0 to_arg amt sd
           \<and> (frozen s0 \<longrightarrow>
                res = Rejected WalletFrozen \<and> state_json d' = state_json d \<and>
                signatures d' = signatures d \<and>
                length (transactions_log d') = Suc (length (transactions_log d)))"
proof -
  let ?s = "rollover e s0"
  let ?F = "gate_fails cfg al (now e) ?s to_arg amt sd"
  let ?recent = "filter (\<lambda>ts. js_div (of_int (now e - ts)) 1000
                               < of_int (windowSeconds (freezeOnAnomalies cfg)))
                    (recentRequests s0) @ [now e]"
  note ia = isAllowed_loaded[OF al, of to_arg]
  note defs = first_failing_gate_def gate_order_def
  consider (frozen) "?F GateFrozen"
    | (sender) "\<not> ?F GateFrozen" "?F GateSender"
    | (allow) "\<not> ?F GateFrozen" "\<not> ?F GateSender" "?F GateAllowlist"
    | (pertx) "\<not> ?F GateFrozen" "\<not> ?F GateSender" "\<not> ?F GateAllowlist"
        "?F GatePerTransaction"
    | (daily) "\<not> ?F GateFrozen" "\<not> ?F GateSender" "\<not> ?F GateAllowlist"
        "\<not> ?F GatePerTransaction" "?F GateDailyLimit"
    | (cool) "\<not> ?F GateFrozen" "\<not> ?F GateSender" "\<not> ?F GateAllowlist"
        "\<not> ?F GatePerTransaction" "\<not> ?F GateDailyLimit" "?F GateCooldown"
    | (anomaly) "\<not> ?F GateFrozen" "\<not> ?F GateSender" "\<not> ?F GateAllowlist"
        "\<not> ?F GatePerTransaction" "\<not> ?F GateDailyLimit" "\<not> ?F GateCooldown"
        "?F GateAnomaly"
    | (pass) "\<not> ?F GateFrozen" "\<not> ?F GateSender" "\<not> ?F GateAllowlist"
        "\<not> ?F GatePerTransaction" "\<not> ?F GateDailyLimit" "\<not> ?F GateCooldown"
        "\<not> ?F GateAnomaly"
    by blast
  then show ?thesis
  proof cases
    case frozen
    then have f: "frozen s0" by simp
    show ?thesis
      using frozen by (simp add: req_frozen[OF cfg st f] defs logTransaction_def)
  next
    case sender
    then have f: "\<not> frozen s0" by simp
    from sender(2) obtain i where u: "unauthorized_sender cfg sd = Some i"
      using unauthorized_sender_None[of cfg sd] by (cases "unauthorized_sender cfg sd") auto
    show ?thesis
      using sender f by (simp add: req_sender[OF cfg st f u] defs)
  next
    case allow
    then have f: "\<not> frozen s0" by simp
    from allow(2) have u: "unauthorized_sender cfg sd = None"
      by (simp add: unauthorized_sender_None)
    from allow(3) have n: "isAllowed H e d to_arg = Inr False"
      by (simp add: ia)
    show ?thesis
      using allow f by (simp add: req_allowlist[OF cfg st f u n] defs)
  next
    case pertx
    then have f: "\<not> frozen s0" by simp
    from pertx(2) have u: "unauthorized_sender cfg sd = None"
      by (simp add: unauthorized_sender_None)
    from pertx(3) have y: "isAllowed H e d to_arg = Inr True"
      by (simp add: ia)
    from pertx(4) have p: "amt > perTransaction (limits cfg)" by simp
    show ?thesis
      using pertx f by (simp add: req_per_tx[OF cfg st f u y p] defs)
  next
    case daily
    then have f: "\<not> frozen s0" by simp
    from daily(2) have u: "unauthorized_sender cfg sd = None"
      by (simp add: unauthorized_sender_None)
    from daily(3) have y: "isAllowed H e d to_arg = Inr True"
      by (simp add: ia)
    from daily(4) have p: "\<not> amt > perTransaction (limits cfg)" by simp
    from daily(5) have q: "js_add (dailyTotal ?s) amt > dailyMax (limits cfg)" by simp
    show ?thesis
      using daily f by (simp add: req_daily[OF cfg st f u y p q] defs)
  next
    case cool
    then have f: "\<not> frozen s0" by simp
    from cool(2) have u: "unauthorized_sender cfg sd = None"
      by (simp add: unauthorized_sender_None)
    from cool(3) have y: "isAllowed H e d to_arg = Inr True"
      by (simp add: ia)
    from cool(4) have p: "\<not> amt > perTransaction (limits cfg)" by simp
    from cool(5) have q: "\<not> js_add (dailyTotal ?s) amt > dailyMax (limits cfg)" by simp
    from cool(6) obtain w where c: "cooldown_wait cfg ?s (now e) = Some w"
      using cooldown_wait_None[of cfg ?s "now e"]
      by (cases "cooldown_wait cfg ?s (now e)") auto
    show ?thesis
      using cool f by (simp add: req_cooldown[OF cfg st f u y p q c] defs)
  next
    case anomaly
    then have f: "\<not> frozen s0" by simp
    from anomaly(2) have u: "unauthorized_sender cfg sd = None"
      by (simp add: unauthorized_sender_None)
    from anomaly(3) have y: "isAllowed H e d to_arg = Inr True"
      by (simp add: ia)
    from anomaly(4) have p: "\<not> amt > perTransaction (limits cfg)" by simp
    from anomaly(5) have q: "\<not> js_add (dailyTotal ?s) amt > dailyMax (limits cfg)" by simp
    from anomaly(6) have c: "cooldown_wait cfg ?s (now e) = None"
      by (simp add: cooldown_wait_None)
    from anomaly(7) have n: "int (length ?recent) \<ge> rapidRequests (freezeOnAnomalies cfg)"
      by simp
    show ?thesis
      using anomaly f by (simp add: req_anomaly[OF cfg st f u y p q c refl n] defs)
  next
    case pass
    then have f: "\<not> frozen s0" by simp
    from pass(2) have u: "unauthorized_sender cfg sd = None"
      by (simp add: unauthorized_sender_None)
    from pass(3) have y: "isAllowed H e d to_arg = Inr True"
      by (simp add: ia)
    from pass(4) have p: "\<not> amt > perTransaction (limits cfg)" by simp
    from pass(5) have q: "\<not> js_add (dailyTotal ?s) amt > dailyMax (limits cfg)" by simp
    from pass(6) have c: "cooldown_wait cfg ?s (now e) = None"
      by (simp add: cooldown_wait_None)
    from pass(7) have n: "\<not> int (length ?recent) \<ge> rapidRequests (freezeOnAnomalies cfg)"
      by simp
    show ?thesis
      using pass f by (simp add: req_issue[OF cfg st f u y p q c refl n refl refl] defs)
  qed
qed


theorem requestSend_first_failing_gate_witness:
  "\<exists>d' res. requestSend toy_mac env0 0 disk_frozen ''0xabcd'' 5 None None = Inr (d', res)
      \<and> gate_of res = Some GateFrozen
      \<and> res = Rejected WalletFrozen
      \<and> state_json d' = state_json disk_frozen
      \<and> signatures d' = signatures disk_frozen
      \<and> length (transactions_log d') = Suc (length (transactions_log disk_frozen))"
proof -
  have l: "loadState toy_mac env0 disk_frozen = Inr state_frozen"
    unfolding disk_frozen_def by (rule loadState_saveState) (simp_all add: toy_mac_def)
  have c: "loadConfig toy_mac env0 disk_frozen = Inr DEFAULT_CONFIG"
    by (simp add: loadConfig_def disk_frozen_def disk_empty_def)
  have a: "loadAllowlist toy_mac env0 disk_frozen = Inr \<lparr> addresses = [] \<rparr>"
    by (simp add: loadAllowlist_def disk_frozen_def disk_empty_def)
  have f: "frozen state_frozen"
    by (simp add: state_frozen_def)
  have g: "first_failing_gate DEFAULT_CONFIG \<lparr> addresses = [] \<rparr> env0 state_frozen ''0xabcd'' 5 None
             = Some GateFrozen"
    by (simp add: first_failing_gate_def gate_order_def f)
  from requestSend_first_failing_gate[OF c l a, of 0 "''0xabcd''" 5 None None] f g
  show ?thesis by auto
qed




text \<open>
  C4. A rejection at the cooldown check writes nothing: whenever \<^verbatim>\<open>requestSend\<close> returns the
  cooldown rejection, the directory after the call is the directory before it, and the log
  has no new entry.
\<close>

theorem cooldown_rejection_writes_nothing:
  assumes "outcome (requestSend H e r d to_arg amt tok sd) = Some (Rejected (CooldownActive w))"
  shows "disk_after d (requestSend H e r d to_arg amt tok sd) = d
       \<and> transactions_log (disk_after d (requestSend H e r d to_arg amt tok sd))
           = transactions_log d"
  using assms by (cases rule: requestSend_cases[of H e r d to_arg amt tok sd]) auto


theorem cooldown_rejection_writes_nothing_witness:
  "outcome (requestSend toy_mac env0 0 disk_recent ''0x123456'' 5 None None) =
     Some (Rejected (CooldownActive 20))
   \<and> disk_after disk_recent (requestSend toy_mac env0 0 disk_recent ''0x123456'' 5 None None) =
       disk_recent
   \<and> transactions_log
       (disk_after disk_recent (requestSend toy_mac env0 0 disk_recent ''0x123456'' 5 None None)) =
       []"
proof -
  have h: "outcome (requestSend toy_mac env0 0 disk_recent ''0x123456'' 5 None None) =
     Some (Rejected (CooldownActive 20))"
    by (simp add: cooldown_eval)
  from cooldown_rejection_writes_nothing[OF h] h show ?thesis
    by (simp add: disk_recent_def)
qed

text \<open>
  C5. \<^verbatim>\<open>verify\<close> returns false exactly when a secret is set, the tracked file exists, and
  its tag is missing from the signature store (also when the store itself is missing), is
  empty, or does not decode to the keyed hash of the file's content. In every other case
  it returns true: with no secret set, and whenever the file does not exist, also when a
  tag is recorded for it.
\<close>

theorem verify_false_iff:
  "verify H e d f = False \<longleftrightarrow>
     (\<exists>k content. getSecret e = Some k \<and> read_file d f = Some content \<and>
        (map_of (loadSignatures d) f = None \<or> map_of (loadSignatures d) f = Some [] \<or>
         (\<exists>tag. map_of (loadSignatures d) f = Some tag \<and> hex_decode tag \<noteq> H k content)))"
  by (auto simp: verify_def Let_def split: option.splits)

theorem verify_false_iff_witness:
  "verify toy_mac env0 disk_tampered ''state.json'' = False \<and>
   verify toy_mac env0 (disk0\<lparr>signatures := None\<rparr>) ''state.json'' = False \<and>
   verify toy_mac env0 disk0 ''state.json'' = True \<and>
   verify toy_mac (env0\<lparr>AWG_INTEGRITY_SECRET := None\<rparr>) disk_tampered ''state.json'' = True"
  using verify_false_iff[of toy_mac env0 disk_tampered "''state.json''"]
    verify_false_iff[of toy_mac env0 "disk0\<lparr>signatures := None\<rparr>" "''state.json''"]
    verify_false_iff[of toy_mac env0 disk0 "''state.json''"]
    verify_false_iff[of toy_mac "env0\<lparr>AWG_INTEGRITY_SECRET := None\<rparr>" disk_tampered "''state.json''"]
  by (simp add: disk_tampered_def disk0_eq getSecret_def env0_def read_file_def loadSignatures_def
      toy_mac_def state0_def hex_val_def)

text \<open>
  The claim as the specification words it fails: with the secret set, a state file that was
  signed and then deleted (its tag is still in the signature store) verifies.
\<close>

theorem verify_deleted_file_counterexample:
  "getSecret env0 = Some ''k1'' \<and>
   map_of (loadSignatures disk_deleted) ''state.json'' = Some ''1100'' \<and>
   read_file disk_deleted ''state.json'' = None \<and>
   verify toy_mac env0 disk_deleted ''state.json'' = True"
  by (simp add: disk_deleted_def disk0_eq getSecret_def env0_def read_file_def loadSignatures_def
      verify_def)

text \<open>
  C6. The log does not depend on the confirmation code, over every sequence of operations.
  Take two directories that agree apart from the code of the pending confirmation (same
  configuration, allowlist and log, same state with the code blanked), and two runs of
  any length over \<^verbatim>\<open>requestSend\<close>, \<^verbatim>\<open>confirmSend\<close>, \<^verbatim>\<open>freeze\<close>, \<^verbatim>\<open>unfreeze\<close> and
  \<^verbatim>\<open>getStatus\<close> that make the same calls at the same times under one secret, except that
  each \<^verbatim>\<open>requestSend\<close> may draw any random number for its code and each \<^verbatim>\<open>confirmSend\<close>
  may present any code, as long as the codes presented match in both runs or in neither.
  Then the two runs leave the same log, and directories that still agree apart from the
  code. So no entry, under any outcome, has a field that holds the code or a value
  computed from it; the digits of the code are in a log line only when a value the entry
  is built from (the address, for one) contains them.
\<close>

theorem log_independent_of_code:
  assumes "\<And>k c. H k c \<noteq> []"
    and "without_code H e0 d2 = without_code H e0 d"
    and "same_trace H e0 d d2 cs cs2"
  shows "transactions_log (run_all H d2 cs2) = transactions_log (run_all H d cs)
       \<and> without_code H e0 (run_all H d2 cs2) = without_code H e0 (run_all H d cs)"
  using run_all_without_code[OF assms] rel_fields(3)[OF run_all_without_code[OF assms]]
  by simp

theorem log_independent_of_code_witness:
  "same_trace toy_mac env0 disk_allow disk_allow calls_a calls_b \<and>
   transactions_log (run_all toy_mac disk_allow calls_b) =
   transactions_log (run_all toy_mac disk_allow calls_a)"
proof -
  have mac: "\<And>k c. toy_mac k c \<noteq> []" by (simp add: toy_mac_def)
  have sec: "getSecret env0 = Some ''k1''" by (simp add: getSecret_def env0_def)
  have ma: "code_matches toy_mac env0
     (disk_after disk_allow (requestSend toy_mac env0 23456 disk_allow ''0x123456'' 5 None None))
     ''123456''"
    unfolding issue_eval
    by (simp add: code_matches_def loadState_def verify_def sec read_file_def
        loadSignatures_def toy_mac_def hex_val_def disk_allow_def)
  have mb: "code_matches toy_mac env0
     (disk_after disk_allow (requestSend toy_mac env0 7 disk_allow ''0x123456'' 5 None None))
     ''100007''"
    unfolding issue_eval_b
    by (simp add: code_matches_def loadState_def verify_def sec read_file_def
        loadSignatures_def toy_mac_def hex_val_def disk_allow_def)
  have tr: "same_trace toy_mac env0 disk_allow disk_allow calls_a calls_b"
    by (simp add: calls_a_def calls_b_def Let_def ma mb)
  from log_independent_of_code[OF mac refl tr] tr show ?thesis by simp
qed

text \<open>
  The claim as the specification words it fails: a request to the allowlisted address
  \<^verbatim>\<open>0x123456\<close> for which the code \<^verbatim>\<open>123456\<close> is drawn logs an entry whose \<^verbatim>\<open>to\<close> field
  includes the code.
\<close>

theorem code_in_log_counterexample:
  "outcome (requestSend toy_mac env0 23456 disk_allow ''0x123456'' 5 None None) =
     Some (NeedsConfirmation 5 ''USDC'' ''0x123456'' ''123456'' 5)
   \<and> entry_mentions
        (last (transactions_log
           (disk_after disk_allow
              (requestSend toy_mac env0 23456 disk_allow ''0x123456'' 5 None None))))
        ''123456''"
  by (simp add: issue_eval entry_mentions_def)

text \<open>
  C7. A code that \<^verbatim>\<open>requestSend\<close> issues is the decimal string of a number from 100000 to
  999998: \<^verbatim>\<open>randomInt(100000, 999999)\<close> excludes its upper bound, so the code is never
  \<^verbatim>\<open>999999\<close>.
\<close>

theorem issued_code_never_999999:
  assumes "outcome (requestSend H e r d t a k sd) = Some (NeedsConfirmation a' k' t' c m)"
  shows "c \<noteq> ''999999'' \<and> (\<exists>n. 100000 \<le> n \<and> n \<le> 999998 \<and> c = String_int n)"
proof -
  from assms have "c = String_int (randomInt 100000 999999 r)"
    by (cases rule: requestSend_cases[of H e r d t a k sd]) auto
  then show ?thesis
    using code_not_999999[of r] randomInt_code_range[of r]
    by (intro conjI exI[of _ "randomInt 100000 999999 r"]) simp_all
qed

theorem issued_code_never_999999_witness:
  "outcome (requestSend toy_mac env0 23456 disk_allow ''0x123456'' 5 None None) =
     Some (NeedsConfirmation 5 ''USDC'' ''0x123456'' ''123456'' 5)
   \<and> ''123456'' \<noteq> ''999999''
   \<and> (\<exists>n. 100000 \<le> n \<and> n \<le> 999998 \<and> ''123456'' = String_int n)"
proof -
  have h: "outcome (requestSend toy_mac env0 23456 disk_allow ''0x123456'' 5 None None) =
     Some (NeedsConfirmation 5 ''USDC'' ''0x123456'' ''123456'' 5)"
    by (simp add: issue_eval)
  from issued_code_never_999999[OF h] h show ?thesis by simp
qed

text \<open>
  C8. Every call of \<^verbatim>\<open>requestSend\<close>, \<^verbatim>\<open>confirmSend\<close>, \<^verbatim>\<open>freeze\<close>, \<^verbatim>\<open>unfreeze\<close> or
  \<^verbatim>\<open>getStatus\<close> that does not return \<^verbatim>\<open>approved: true\<close> (a rejection, a thrown integrity
  error, or a call that cannot approve) leaves the stored \<^verbatim>\<open>dailyTotal\<close> as it was, or
  resets it to zero when the stored \<^verbatim>\<open>dailyDate\<close> is not today. A \<^verbatim>\<open>confirmSend\<close> that
  fails with the sender mismatch leaves the whole stored state, and so \<^verbatim>\<open>dailyTotal\<close>,
  unchanged.
\<close>

theorem rejections_keep_dailyTotal:
  "(\<not> snd (run H e d op) \<longrightarrow>
      stored_dailyTotal (fst (run H e d op)) = stored_dailyTotal d \<or>
      (date_rolled e d \<and> stored_dailyTotal (fst (run H e d op)) = 0))
   \<and> (outcome (confirmSend H e d c sd) = Some (Rejected SenderMismatch) \<longrightarrow>
        stored_dailyTotal (disk_after d (confirmSend H e d c sd)) = stored_dailyTotal d \<and>
        state_json (disk_after d (confirmSend H e d c sd)) = state_json d)"
proof (intro conjI impI)
  assume na: "\<not> snd (run H e d op)"
  show "stored_dailyTotal (fst (run H e d op)) = stored_dailyTotal d \<or>
        (date_rolled e d \<and> stored_dailyTotal (fst (run H e d op)) = 0)"
  proof (cases op)
    case (RequestSend r t a k s)
    then show ?thesis using requestSend_total[of d H e r t a k s] by (simp add: Let_def)
  next
    case (ConfirmSend c' s')
    show ?thesis
    proof (cases "outcome (confirmSend H e d c' s')")
      case None
      with ConfirmSend show ?thesis by (simp add: Let_def confirmSend_throw_total)
    next
      case (Some res)
      with na ConfirmSend have "\<not> approved res" by (simp add: Let_def)
      from confirmSend_total[OF Some this] ConfirmSend show ?thesis by (simp add: Let_def)
    qed
  next
    case (Freeze why)
    then show ?thesis by (simp add: freeze_total)
  next
    case Unfreeze
    then show ?thesis by (simp add: unfreeze_total)
  next
    case GetStatus
    then show ?thesis using getStatus_total[of d H e] by simp
  qed
next
  assume m: "outcome (confirmSend H e d c sd) = Some (Rejected SenderMismatch)"
  then show "stored_dailyTotal (disk_after d (confirmSend H e d c sd)) = stored_dailyTotal d"
    by (intro confirmSend_total[OF m]) simp
  from m show "state_json (disk_after d (confirmSend H e d c sd)) = state_json d"
    by (rule confirmSend_mismatch_state)
qed


theorem rejections_keep_dailyTotal_witness:
  "\<not> snd (run toy_mac env0 disk0 (ConfirmSend ''000001'' None))
   \<and> stored_dailyTotal (fst (run toy_mac env0 disk0 (ConfirmSend ''000001'' None))) = 40
   \<and> stored_dailyTotal disk0 = 40
   \<and> outcome (confirmSend toy_mac env0 disk_from_a ''483920'' (Some sender_b)) =
        Some (Rejected SenderMismatch)
   \<and> stored_dailyTotal
        (disk_after disk_from_a (confirmSend toy_mac env0 disk_from_a ''483920'' (Some sender_b)))
        = 40"
  using rejections_keep_dailyTotal[of toy_mac env0 disk0 "ConfirmSend ''000001'' None"
      "''483920''" "Some sender_b"]
    rejections_keep_dailyTotal[of toy_mac env0 disk_from_a "ConfirmSend ''000001'' None"
      "''483920''" "Some sender_b"]
  by (simp add: eval_defs disk0_eq disk_from_a_eq state_from_a_def state0_def pending0_def
      sender_a_def sender_b_def stored_dailyTotal_def MAX_CONFIRM_ATTEMPTS_def)

text \<open>
  C9. \<^verbatim>\<open>confirmSend\<close> does not consult the \<^verbatim>\<open>frozen\<close> flag: on a frozen wallet whose state
  holds a pending confirmation that has not expired, the matching code (with a sender that
  does not mismatch) is approved, the amount is added to \<^verbatim>\<open>dailyTotal\<close>, and the wallet
  stays frozen.
\<close>

theorem confirmSend_ignores_frozen:
  assumes "loadState H e d = Inr s" and "frozen s" and "pendingConfirmation s = Some p"
    and "now e \<le> expiresAt p" and "\<not> sender_mismatch (sender p) sd"
  shows "\<exists>d'. confirmSend H e d (code p) sd = Inr (d', Approved (to p) (amount p) (token p))
           \<and> map_option dailyTotal (state_json d') = Some (js_add (dailyTotal s) (amount p))
           \<and> map_option frozen (state_json d') = Some True"
  using assms(2) by (simp add: confirmSend_match[OF assms(1,3,4,5)])

theorem confirmSend_ignores_frozen_witness:
  "\<exists>d'. confirmSend toy_mac env0 disk_frozen ''483920'' None =
           Inr (d', Approved ''0xabcd'' 5 ''USDC'')
      \<and> map_option dailyTotal (state_json d') = Some 45
      \<and> map_option frozen (state_json d') = Some True"
proof -
  have l: "loadState toy_mac env0 disk_frozen = Inr state_frozen"
    unfolding disk_frozen_def by (rule loadState_saveState) (simp_all add: toy_mac_def)
  have f: "frozen state_frozen"
    by (simp add: state_frozen_def)
  have p: "pendingConfirmation state_frozen = Some pending0"
    by (simp add: state_frozen_def state0_def)
  have x: "now env0 \<le> expiresAt pending0"
    by (simp add: env0_def pending0_def)
  have m: "\<not> sender_mismatch (sender pending0) None"
    by (simp add: sender_mismatch_def pending0_def)
  from confirmSend_ignores_frozen[OF l f p x m] show ?thesis
    by (simp add: pending0_def state_frozen_def state0_def js_add_samples)
qed

text \<open>
  C10. When the state and the configuration load, \<^verbatim>\<open>getStatus\<close> returns and leaves the
  directory as it was if the stored \<^verbatim>\<open>dailyDate\<close> is today; otherwise it stores the loaded
  state with \<^verbatim>\<open>dailyTotal\<close> reset to zero and \<^verbatim>\<open>dailyDate\<close> set to today, every other
  field (\<^verbatim>\<open>frozen\<close>, \<^verbatim>\<open>frozenAt\<close>, \<^verbatim>\<open>frozenReason\<close>, \<^verbatim>\<open>lastTransaction\<close>,
  \<^verbatim>\<open>pendingConfirmation\<close>, \<^verbatim>\<open>recentRequests\<close>) unchanged. It writes nothing to the log,
  the configuration or the allowlist.
\<close>

theorem getStatus_frame:
  assumes "loadState H e d = Inr s" and "loadConfig H e d = Inr cfg"
  shows "\<exists>d' st. getStatus H e d = Inr (d', st)
           \<and> (if dailyDate s = today e then d' = d
               else state_json d' = Some (s\<lparr>dailyTotal := 0, dailyDate := today e\<rparr>))
           \<and> transactions_log d' = transactions_log d
           \<and> config_json d' = config_json d
           \<and> allowlist_json d' = allowlist_json d"
  using assms by (simp add: getStatus_def rollover_def Let_def)

theorem getStatus_frame_witness:
  "\<exists>d' st. getStatus toy_mac env0 disk_yesterday = Inr (d', st)
      \<and> state_json d' = Some (state0\<lparr>dailyTotal := 0\<rparr>)
      \<and> transactions_log d' = []"
proof -
  have l: "loadState toy_mac env0 disk_yesterday = Inr state_yesterday"
    unfolding disk_yesterday_def by (rule loadState_saveState) (simp_all add: toy_mac_def)
  have c: "loadConfig toy_mac env0 disk_yesterday = Inr DEFAULT_CONFIG"
    by (simp add: loadConfig_def disk_yesterday_def disk_empty_def)
  have t: "today env0 = 20759"
    by (simp add: today_def env0_def)
  from getStatus_frame[OF l c] t show ?thesis
    by (auto simp: state_yesterday_def state0_def disk_yesterday_def disk_empty_def)
qed

end
